theory Spec2Isabelle
  imports
    Main
    "HOL-Library.Word"
    "HOL-Library.Multiset"
    "HOL-Library.Char_ord"
    "HOL-Library.List_Lexorder"
begin

section \<open>Data model of \<^verbatim>\<open>multidevice/send.go\<close>\<close>

text \<open>
  The file under verification is the multi-device send path of a WhatsApp client: it
  resolves the devices of the recipients, encrypts the message once per device, retries
  the devices without a Signal session after one batched prekey fetch, and assembles the
  outbound \<^verbatim>\<open>message\<close> node.

  Everything the file calls but does not define is a field of an environment record
  \<open>env\<close>, a function on an abstract world \<open>'w\<close>: the Signal library (session store,
  pairwise and group ciphers), protobuf marshalling, the random source and the digest,
  and the client's own methods that live in other files (\<^verbatim>\<open>sendIQ\<close>, \<^verbatim>\<open>sendNode\<close>,
  \<^verbatim>\<open>fetchPreKeys\<close>, \<^verbatim>\<open>generateRequestID\<close>, \<^verbatim>\<open>padMessage\<close>, and the methods \<^verbatim>\<open>String\<close>
  and \<^verbatim>\<open>SignalAddress\<close> of an address). The theorems hold for every environment unless
  they state a hypothesis about it. Each call of an effectful collaborator appends one
  event to the client's \<open>trace\<close>, in the order in which the source makes the calls.
  Calls of the logger are not modelled: they return nothing and change no variable of
  the program.
\<close>

type_synonym byte = "8 word"
type_synonym bytes = "byte list"

text \<open>
  Modelled from the spec: the address type \<^verbatim>\<open>waBinary.FullJID\<close> is declared in another
  package. The spec's DeviceAddress has a user, a device index of type uint8 and the
  flag ``directory qualified''; the source also reads \<^verbatim>\<open>Server\<close> and passes an agent
  byte to \<^verbatim>\<open>NewADJID\<close>. Go compares structs field by field. The two constructors and
  the server names belong to that package as well: \<^verbatim>\<open>NewADJID\<close> gives a directory
  qualified address on the default user server, \<^verbatim>\<open>NewJID\<close> a plain one.
\<close>

record jid =
  User :: string
  Agent :: byte
  Device :: byte
  Server :: string
  AD :: bool

definition GroupServer :: string where
  "GroupServer = ''g.us''"

definition DefaultUserServer :: string where
  "DefaultUserServer = ''s.whatsapp.net''"

definition NewJID :: "string \<Rightarrow> string \<Rightarrow> jid" where
  "NewJID user server = \<lparr>User = user, Agent = 0, Device = 0, Server = server, AD = False\<rparr>"

definition NewADJID :: "string \<Rightarrow> byte \<Rightarrow> byte \<Rightarrow> jid" where
  "NewADJID user agent device =
     \<lparr>User = user, Agent = agent, Device = device, Server = DefaultUserServer, AD = True\<rparr>"

definition ServerJID :: jid where
  "ServerJID = NewJID [] DefaultUserServer"

text \<open>The address under which the Signal library files a session.\<close>

record signalAddress =
  addrName :: string
  addrDeviceID :: "32 word"

subsection \<open>Errors\<close>

text \<open>
  An error of a library outside the repository is opaque (\<open>exterr\<close>). The errors of this
  file are the sentinel \<^verbatim>\<open>ErrNoSession\<close>, \<^verbatim>\<open>fmt.Errorf\<close> without \<^verbatim>\<open>%w\<close> (\<open>Errorf\<close>) and
  \<^verbatim>\<open>fmt.Errorf\<close> wrapping another error with \<^verbatim>\<open>%w\<close> (\<open>Wrapf\<close>). Only the constant part of
  a format string is kept.
\<close>

datatype exterr = ExtErr string

datatype error =
    ErrNoSession
  | External exterr
  | Errorf string
  | Wrapf string error

text \<open>\<^verbatim>\<open>errors.Is(err, ErrNoSession)\<close>: the sentinel itself, or a chain of wrappers around it.\<close>

fun errors_Is_ErrNoSession :: "error \<Rightarrow> bool" where
  "errors_Is_ErrNoSession ErrNoSession = True"
| "errors_Is_ErrNoSession (Wrapf m e) = errors_Is_ErrNoSession e"
| "errors_Is_ErrNoSession (External e) = False"
| "errors_Is_ErrNoSession (Errorf m) = False"

subsection \<open>Nodes\<close>

text \<open>
  \<^verbatim>\<open>waBinary.Node\<close> has a tag, a map of attributes with values of any type, and a content
  of any type: absent, a list of nodes, bytes or text. The attribute values this file
  writes or reads are strings, addresses and integers.
\<close>

datatype attr = AString string | AJID jid | AInt64 "64 word"

datatype 'n content = NoContent | Children "'n list" | Bytes bytes | Text string

datatype node = Node (Tag: string) (Attrs: "string \<rightharpoonup> attr") (Content: "node content")

text \<open>
  Modelled from the spec: the accessors of \<^verbatim>\<open>waBinary.Node\<close> live in another package.
  The spec's node body is a sequence of children or raw bytes. \<^verbatim>\<open>GetChildren\<close> is the
  content when it is a list of nodes and empty otherwise; \<^verbatim>\<open>GetOptionalChildByTag\<close> is
  the first child with the tag, if any; \<^verbatim>\<open>GetChildByTag\<close> is that child. What
  \<^verbatim>\<open>GetChildByTag\<close> gives when there is no such child is not said; here it is the node
  itself, and the source tells the two cases apart by comparing the tag. No theorem
  below rests on that choice.
\<close>

definition GetChildren :: "node \<Rightarrow> node list" where
  "GetChildren n = (case Content n of Children cs \<Rightarrow> cs | _ \<Rightarrow> [])"

definition GetOptionalChildByTag :: "node \<Rightarrow> string \<Rightarrow> node option" where
  "GetOptionalChildByTag n t = find (\<lambda>c. Tag c = t) (GetChildren n)"

definition GetChildByTag :: "node \<Rightarrow> string \<Rightarrow> node" where
  "GetChildByTag n t = (case GetOptionalChildByTag n t of Some c \<Rightarrow> c | None \<Rightarrow> n)"

subsection \<open>The collaborators\<close>

text \<open>
  Values that the program passes on without looking inside: a prekey bundle, and below
  the message of the caller. A number tells two of them apart.
\<close>

datatype prekeyBundle = Bundle nat

text \<open>
  A ciphertext of the Signal library, with the two methods the program calls on it.
  \<^verbatim>\<open>PREKEY_TYPE\<close> is the library's constant for a prekey message.
\<close>

datatype ciphertextMessage = CiphertextMessage (Type: "32 word") (Serialize: bytes)

definition PREKEY_TYPE :: "32 word" where
  "PREKEY_TYPE = 3"

text \<open>
  Modelled from the spec: the type of the entries of the map that \<^verbatim>\<open>fetchPreKeys\<close>
  returns is declared in another file. The spec's bundle fetcher maps each address to a
  bundle or an error; the source reads the fields \<^verbatim>\<open>bundle\<close> (a pointer) and \<^verbatim>\<open>err\<close>. A key
  that is absent from a Go map reads as the zero value: no bundle and no error.
\<close>

record preKeyResp =
  "bundle" :: "prekeyBundle option"
  err :: "error option"

definition lookupResp :: "(jid \<rightharpoonup> preKeyResp) \<Rightarrow> jid \<Rightarrow> preKeyResp" where
  "lookupResp bundles j =
     (case bundles j of Some r \<Rightarrow> r | None \<Rightarrow> \<lparr>bundle = None, err = None\<rparr>)"

record infoQuery =
  iqNamespace :: string
  iqType :: string
  iqTo :: jid
  iqContent :: "node list"

record senderKeyName =
  groupID :: string
  sender :: signalAddress

text \<open>What is handed to \<^verbatim>\<open>proto.Marshal\<close>.\<close>

datatype waMessage = WaMessage nat

datatype proto =
    PMessage waMessage
  | PSenderKeyDistributionMessage string bytes
  | PDeviceSentMessage string waMessage
  | PAccount

text \<open>One event for each call of a collaborator that acts on the world.\<close>

datatype event =
    EvSendIQ infoQuery
  | EvSendNode node
  | EvFetchPreKeys "jid list"
  | EvProcessBundle jid prekeyBundle
  | EvEncrypt jid bytes
  | EvGroupCreate senderKeyName
  | EvGroupEncrypt senderKeyName bytes
  | EvRandRead nat

text \<open>
  The environment. \<^verbatim>\<open>ContainsSession\<close>, \<^verbatim>\<open>ProcessBundle\<close>, \<^verbatim>\<open>Encrypt\<close>, \<^verbatim>\<open>GroupCreate\<close> (the
  serialized distribution message of \<^verbatim>\<open>builder.Create\<close>) and \<^verbatim>\<open>GroupEncrypt\<close> (the signed
  serialization of the group ciphertext) are the Signal library; \<^verbatim>\<open>Marshal\<close> is
  \<^verbatim>\<open>proto.Marshal\<close>, \<^verbatim>\<open>randRead\<close> is \<^verbatim>\<open>rand.Read\<close>, \<^verbatim>\<open>Sum256\<close> is \<^verbatim>\<open>sha256.Sum256\<close>. The
  errors of these libraries are opaque; the client's own methods return errors of the
  program.
\<close>

record 'w env =
  SignalAddress :: "jid \<Rightarrow> signalAddress"
  String :: "jid \<Rightarrow> string"
  ContainsSession :: "'w \<Rightarrow> signalAddress \<Rightarrow> bool"
  ProcessBundle :: "'w \<Rightarrow> signalAddress \<Rightarrow> prekeyBundle \<Rightarrow> exterr option \<times> 'w"
  Encrypt :: "'w \<Rightarrow> signalAddress \<Rightarrow> bytes \<Rightarrow> (exterr + ciphertextMessage) \<times> 'w"
  GroupCreate :: "'w \<Rightarrow> senderKeyName \<Rightarrow> (exterr + bytes) \<times> 'w"
  GroupEncrypt :: "'w \<Rightarrow> senderKeyName \<Rightarrow> bytes \<Rightarrow> (exterr + bytes) \<times> 'w"
  padMessage :: "'w \<Rightarrow> bytes \<Rightarrow> bytes \<times> 'w"
  Marshal :: "proto \<Rightarrow> exterr + bytes"
  fetchPreKeys :: "'w \<Rightarrow> jid list \<Rightarrow> (error + (jid \<rightharpoonup> preKeyResp)) \<times> 'w"
  sendIQ :: "'w \<Rightarrow> infoQuery \<Rightarrow> (error + node) \<times> 'w"
  sendNode :: "'w \<Rightarrow> node \<Rightarrow> error option \<times> 'w"
  generateRequestID :: "'w \<Rightarrow> string \<times> 'w"
  randRead :: "'w \<Rightarrow> nat \<Rightarrow> (exterr + bytes) \<times> 'w"
  Sum256 :: "bytes \<Rightarrow> bytes"

text \<open>The client: its own registered address, the world, and the calls made so far.\<close>

record 'w client =
  SessionID :: jid
  world :: 'w
  trace :: "event list"

definition emit :: "event \<Rightarrow> 'w \<Rightarrow> 'w client \<Rightarrow> 'w client" where
  "emit e w cli = cli\<lparr>world := w, trace := trace cli @ [e]\<rparr>"

section \<open>Per-device encryption and the fanout\<close>

text \<open>
  \<^verbatim>\<open>encryptMessageForDevice\<close>. Without a session the bundle is processed when there is
  one, and the call ends with \<^verbatim>\<open>ErrNoSession\<close> when there is none; with a session, or
  after the bundle, the padded plaintext is encrypted, and the kind of the ciphertext
  decides between \<^verbatim>\<open>pkmsg\<close> and \<^verbatim>\<open>msg\<close>.
\<close>

definition encryptMessageForDevice ::
  "'w env \<Rightarrow> 'w client \<Rightarrow> bytes \<Rightarrow> jid \<Rightarrow> prekeyBundle option \<Rightarrow> (error + node \<times> bool) \<times> 'w client" where
  "encryptMessageForDevice env cli plaintext to b =
     (let addr = SignalAddress env to;
          (early, cli1) =
            (if \<not> ContainsSession env (world cli) addr then
               (case b of
                  Some bdl \<Rightarrow>
                    (case ProcessBundle env (world cli) addr bdl of
                       (Some e, w) \<Rightarrow>
                         (Some (Wrapf ''failed to process prekey bundle'' (External e)),
                          emit (EvProcessBundle to bdl) w cli)
                     | (None, w) \<Rightarrow> (None, emit (EvProcessBundle to bdl) w cli))
                | None \<Rightarrow> (Some ErrNoSession, cli))
             else (None, cli))
      in case early of
           Some e \<Rightarrow> (Inl e, cli1)
         | None \<Rightarrow>
             (let (padded, w2) = padMessage env (world cli1) plaintext;
                  (r, w3) = Encrypt env w2 addr padded;
                  cli3 = emit (EvEncrypt to padded) w3 cli1
              in case r of
                   Inl e \<Rightarrow> (Inl (Wrapf ''cipher encryption failed'' (External e)), cli3)
                 | Inr ciphertext \<Rightarrow>
                     (let encType = (if Type ciphertext = PREKEY_TYPE then ''pkmsg'' else ''msg'')
                      in (Inr (Node ''to'' [''jid'' \<mapsto> AJID to]
                                (Children [Node ''enc''
                                   [''v'' \<mapsto> AString ''2'', ''type'' \<mapsto> AString encType]
                                   (Bytes (Serialize ciphertext))]),
                               encType = ''pkmsg''),
                          cli3))))"

text \<open>
  The plaintext for one device: the copy for the sender's own devices when the device
  belongs to the sender's user and that copy exists.
\<close>

definition choosePlaintext :: "'w client \<Rightarrow> jid \<Rightarrow> bytes \<Rightarrow> bytes option \<Rightarrow> bytes" where
  "choosePlaintext cli j msgPlaintext dsmPlaintext =
     (case dsmPlaintext of
        Some dsm \<Rightarrow> if User j = User (SessionID cli) then dsm else msgPlaintext
      | None \<Rightarrow> msgPlaintext)"

text \<open>
  The first loop of \<^verbatim>\<open>encryptMessageForDevices\<close>, over \<^verbatim>\<open>allDevices\<close>. The loop variables
  are the client, \<^verbatim>\<open>participantNodes\<close>, \<^verbatim>\<open>includeIdentity\<close> and \<^verbatim>\<open>retryDevices\<close>.
\<close>

fun firstPass ::
  "'w env \<Rightarrow> bytes \<Rightarrow> bytes option \<Rightarrow> jid list \<Rightarrow>
   'w client \<times> node list \<times> bool \<times> jid list \<Rightarrow> 'w client \<times> node list \<times> bool \<times> jid list" where
  "firstPass env msgPlaintext dsmPlaintext [] acc = acc"
| "firstPass env msgPlaintext dsmPlaintext (j # js) (cli, participantNodes, includeIdentity, retryDevices) =
     (case encryptMessageForDevice env cli (choosePlaintext cli j msgPlaintext dsmPlaintext) j None of
        (Inl e, cli1) \<Rightarrow>
          if errors_Is_ErrNoSession e
          then firstPass env msgPlaintext dsmPlaintext js
                 (cli1, participantNodes, includeIdentity, retryDevices @ [j])
          else firstPass env msgPlaintext dsmPlaintext js
                 (cli1, participantNodes, includeIdentity, retryDevices)
      | (Inr (encrypted, isPreKey), cli1) \<Rightarrow>
          firstPass env msgPlaintext dsmPlaintext js
            (cli1, participantNodes @ [encrypted], (if isPreKey then True else includeIdentity),
             retryDevices))"

text \<open>The second loop, over \<^verbatim>\<open>retryDevices\<close>, with the fetched bundles.\<close>

fun retryPass ::
  "'w env \<Rightarrow> bytes \<Rightarrow> bytes option \<Rightarrow> (jid \<rightharpoonup> preKeyResp) \<Rightarrow> jid list \<Rightarrow>
   'w client \<times> node list \<times> bool \<Rightarrow> 'w client \<times> node list \<times> bool" where
  "retryPass env msgPlaintext dsmPlaintext bundles [] acc = acc"
| "retryPass env msgPlaintext dsmPlaintext bundles (j # js) (cli, participantNodes, includeIdentity) =
     (let resp = lookupResp bundles j
      in case err resp of
           Some e \<Rightarrow> retryPass env msgPlaintext dsmPlaintext bundles js
                       (cli, participantNodes, includeIdentity)
         | None \<Rightarrow>
             (case encryptMessageForDevice env cli
                     (choosePlaintext cli j msgPlaintext dsmPlaintext) j (bundle resp) of
                (Inl e, cli1) \<Rightarrow>
                  retryPass env msgPlaintext dsmPlaintext bundles js
                    (cli1, participantNodes, includeIdentity)
              | (Inr (encrypted, isPreKey), cli1) \<Rightarrow>
                  retryPass env msgPlaintext dsmPlaintext bundles js
                    (cli1, participantNodes @ [encrypted],
                     (if isPreKey then True else includeIdentity))))"

text \<open>
  \<^verbatim>\<open>encryptMessageForDevices\<close>: the first loop, then, when some device was deferred, one
  call of \<^verbatim>\<open>fetchPreKeys\<close> for all of them and, unless that call fails, the second loop.
  The message id is used for logging only.
\<close>

definition encryptMessageForDevices ::
  "'w env \<Rightarrow> 'w client \<Rightarrow> jid list \<Rightarrow> string \<Rightarrow> bytes \<Rightarrow> bytes option \<Rightarrow>
   (node list \<times> bool) \<times> 'w client" where
  "encryptMessageForDevices env cli allDevices mid msgPlaintext dsmPlaintext =
     (case firstPass env msgPlaintext dsmPlaintext allDevices (cli, [], False, []) of
        (cli1, participantNodes, includeIdentity, retryDevices) \<Rightarrow>
          if length retryDevices > 0 then
            (case fetchPreKeys env (world cli1) retryDevices of
               (Inl e, w) \<Rightarrow>
                 ((participantNodes, includeIdentity), emit (EvFetchPreKeys retryDevices) w cli1)
             | (Inr bundles, w) \<Rightarrow>
                 (case retryPass env msgPlaintext dsmPlaintext bundles retryDevices
                         (emit (EvFetchPreKeys retryDevices) w cli1, participantNodes, includeIdentity) of
                    (cli2, participantNodes2, includeIdentity2) \<Rightarrow>
                      ((participantNodes2, includeIdentity2), cli2)))
          else ((participantNodes, includeIdentity), cli1))"

section \<open>Device resolution\<close>

text \<open>
  Modelled from the spec: \<^verbatim>\<open>AttrGetter\<close> is declared in another package. The spec's
  device entries carry an integer \<^verbatim>\<open>id\<close>; \<^verbatim>\<open>GetInt64\<close> is that integer when the
  attribute is present and an integer. \<^verbatim>\<open>String\<close>, \<^verbatim>\<open>Int64\<close> and \<^verbatim>\<open>JID\<close> read an
  attribute of their type and give the zero value otherwise.
\<close>

definition GetInt64 :: "node \<Rightarrow> string \<Rightarrow> 64 word option" where
  "GetInt64 n k = (case Attrs n k of Some (AInt64 v) \<Rightarrow> Some v | _ \<Rightarrow> None)"

definition agString :: "node \<Rightarrow> string \<Rightarrow> string" where
  "agString n k = (case Attrs n k of Some (AString v) \<Rightarrow> v | _ \<Rightarrow> [])"

definition agInt64 :: "node \<Rightarrow> string \<Rightarrow> 64 word" where
  "agInt64 n k = (case Attrs n k of Some (AInt64 v) \<Rightarrow> v | _ \<Rightarrow> 0)"

definition agJID :: "node \<Rightarrow> string \<Rightarrow> jid" where
  "agJID n k = (case Attrs n k of Some (AJID v) \<Rightarrow> v | _ \<Rightarrow> NewJID [] [])"

text \<open>
  The inner loop of \<^verbatim>\<open>GetUSyncDevices\<close>, over the children of one \<^verbatim>\<open>device-list\<close>.
  \<^verbatim>\<open>byte(deviceID)\<close> keeps the low eight bits of the 64-bit id.
\<close>

fun deviceLoop :: "jid \<Rightarrow> bool \<Rightarrow> jid \<Rightarrow> node list \<Rightarrow> jid list \<Rightarrow> jid list" where
  "deviceLoop own ignorePrimary j [] devices = devices"
| "deviceLoop own ignorePrimary j (device # rest) devices =
     (case GetInt64 device ''id'' of
        None \<Rightarrow> deviceLoop own ignorePrimary j rest devices
      | Some deviceID \<Rightarrow>
          if Tag device \<noteq> ''device'' then deviceLoop own ignorePrimary j rest devices
          else
            (let deviceJID = NewADJID (User j) 0 (ucast deviceID)
             in if (Device deviceJID > 0 \<or> \<not> ignorePrimary) \<and> deviceJID \<noteq> own
                then deviceLoop own ignorePrimary j rest (devices @ [deviceJID])
                else deviceLoop own ignorePrimary j rest devices))"

text \<open>The outer loop, over the children of the \<^verbatim>\<open>list\<close> node.\<close>

fun userLoop :: "jid \<Rightarrow> bool \<Rightarrow> node list \<Rightarrow> jid list \<Rightarrow> jid list" where
  "userLoop own ignorePrimary [] devices = devices"
| "userLoop own ignorePrimary (user # rest) devices =
     (case Attrs user ''jid'' of
        Some (AJID j) \<Rightarrow>
          if Tag user \<noteq> ''user'' then userLoop own ignorePrimary rest devices
          else
            (let deviceNode = GetChildByTag user ''devices'';
                 deviceList = GetChildByTag deviceNode ''device-list''
             in if Tag deviceNode \<noteq> ''devices'' \<or> Tag deviceList \<noteq> ''device-list''
                then userLoop own ignorePrimary rest devices
                else userLoop own ignorePrimary rest
                       (deviceLoop own ignorePrimary j (GetChildren deviceList) devices))
      | _ \<Rightarrow> userLoop own ignorePrimary rest devices)"

definition usyncQuery :: "string \<Rightarrow> jid list \<Rightarrow> infoQuery" where
  "usyncQuery sid jids =
     \<lparr>iqNamespace = ''usync'', iqType = ''get'', iqTo = ServerJID,
      iqContent =
        [Node ''usync''
           [''sid'' \<mapsto> AString sid, ''mode'' \<mapsto> AString ''query'', ''last'' \<mapsto> AString ''true'',
            ''index'' \<mapsto> AString ''0'', ''context'' \<mapsto> AString ''message'']
           (Children
              [Node ''query'' Map.empty
                 (Children [Node ''devices'' [''version'' \<mapsto> AString ''2''] NoContent]),
               Node ''list'' Map.empty
                 (Children (map (\<lambda>j. Node ''user''
                                      [''jid'' \<mapsto> AJID (NewJID (User j) DefaultUserServer)] NoContent)
                              jids))])]\<rparr>"

definition GetUSyncDevices ::
  "'w env \<Rightarrow> 'w client \<Rightarrow> jid list \<Rightarrow> bool \<Rightarrow> (error + jid list) \<times> 'w client" where
  "GetUSyncDevices env cli jids ignorePrimary =
     (let (sid, w1) = generateRequestID env (world cli);
          q = usyncQuery sid jids;
          (r, w2) = sendIQ env w1 q;
          cli1 = emit (EvSendIQ q) w2 cli
      in case r of
           Inl e \<Rightarrow> (Inl (Wrapf ''failed to send usync query'' e), cli1)
         | Inr res \<Rightarrow>
             (let usync = GetChildByTag res ''usync''
              in if Tag usync \<noteq> ''usync''
                 then (Inl (Errorf ''unexpected children in response to usync query''), cli1)
                 else
                   (let lst = GetChildByTag usync ''list''
                    in if Tag lst \<noteq> ''list''
                       then (Inl (Errorf ''missing list inside usync tag''), cli1)
                       else (Inr (userLoop (SessionID cli) ignorePrimary (GetChildren lst) []),
                             cli1))))"

text \<open>
  The reference for device resolution, in the words of the specification. Each device
  entry of the directory answer gives an address with the user of its \<^verbatim>\<open>user\<close> entry and
  the device index of the entry; entries that do not parse are skipped (\<open>listedDevices\<close>).
  An address is left out when it is a primary device and \<open>ignore_primary\<close> is set, and
  always when it is equal to the sender's own address, two addresses being equal when
  user and device index match (\<open>sameDevice\<close>).
\<close>

definition sameDevice :: "jid \<Rightarrow> jid \<Rightarrow> bool" where
  "sameDevice a b = (User a = User b \<and> Device a = Device b)"

fun listedInList :: "jid \<Rightarrow> node list \<Rightarrow> jid list" where
  "listedInList j [] = []"
| "listedInList j (device # rest) =
     (case GetInt64 device ''id'' of
        None \<Rightarrow> listedInList j rest
      | Some deviceID \<Rightarrow>
          if Tag device \<noteq> ''device'' then listedInList j rest
          else NewADJID (User j) 0 (ucast deviceID) # listedInList j rest)"

fun listedDevices :: "node list \<Rightarrow> jid list" where
  "listedDevices [] = []"
| "listedDevices (user # rest) =
     (case Attrs user ''jid'' of
        Some (AJID j) \<Rightarrow>
          if Tag user \<noteq> ''user'' then listedDevices rest
          else
            (let deviceNode = GetChildByTag user ''devices'';
                 deviceList = GetChildByTag deviceNode ''device-list''
             in if Tag deviceNode \<noteq> ''devices'' \<or> Tag deviceList \<noteq> ''device-list''
                then listedDevices rest
                else listedInList j (GetChildren deviceList) @ listedDevices rest)
      | _ \<Rightarrow> listedDevices rest)"

definition resolve_devices_spec :: "jid \<Rightarrow> bool \<Rightarrow> node list \<Rightarrow> jid list" where
  "resolve_devices_spec own ignore_primary users =
     filter (\<lambda>d. \<not> (ignore_primary \<and> Device d = 0) \<and> \<not> sameDevice d own) (listedDevices users)"

section \<open>Group information\<close>

record groupParticipant =
  pJID :: string
  IsAdmin :: bool
  FullJID :: jid

record groupInfo =
  JID :: string
  OwnerJID :: string
  Name :: string
  NameSetTime :: "64 word"
  NameSetBy :: string
  GroupCreated :: "64 word"
  Topic :: string
  TopicID :: string
  TopicSetBy :: string
  TopicSetAt :: "64 word"
  Announce :: bool
  Locked :: bool
  Participants :: "groupParticipant list"

text \<open>The loop of \<^verbatim>\<open>GetGroupInfo\<close> over the children of the \<^verbatim>\<open>group\<close> node.\<close>

fun groupChildren :: "'w env \<Rightarrow> node list \<Rightarrow> groupInfo \<Rightarrow> groupInfo" where
  "groupChildren env [] g = g"
| "groupChildren env (child # rest) g =
     (if Tag child = ''participant'' then
        groupChildren env rest
          (g\<lparr>Participants := Participants g @
                [\<lparr>pJID = String env (agJID child ''jid''),
                  IsAdmin = (agString child ''type'' = ''admin''),
                  FullJID = agJID child ''jid''\<rparr>]\<rparr>)
      else if Tag child = ''description'' then
        (case GetOptionalChildByTag child ''body'' of
           Some body \<Rightarrow>
             groupChildren env rest
               (g\<lparr>Topic := (case Content body of Text t \<Rightarrow> t | _ \<Rightarrow> []),
                  TopicID := agString child ''id'',
                  TopicSetBy := String env (agJID child ''participant''),
                  TopicSetAt := agInt64 child ''t''\<rparr>)
         | None \<Rightarrow> groupChildren env rest g)
      else if Tag child = ''announcement'' then groupChildren env rest (g\<lparr>Announce := True\<rparr>)
      else if Tag child = ''locked'' then groupChildren env rest (g\<lparr>Locked := True\<rparr>)
      else groupChildren env rest g)"

definition groupInfoQuery :: "jid \<Rightarrow> infoQuery" where
  "groupInfoQuery j =
     \<lparr>iqNamespace = ''w:g2'', iqType = ''get'', iqTo = j,
      iqContent = [Node ''query'' [''request'' \<mapsto> AString ''interactive''] NoContent]\<rparr>"

definition GetGroupInfo :: "'w env \<Rightarrow> 'w client \<Rightarrow> jid \<Rightarrow> (error + groupInfo) \<times> 'w client" where
  "GetGroupInfo env cli j =
     (let (r, w) = sendIQ env (world cli) (groupInfoQuery j);
          cli1 = emit (EvSendIQ (groupInfoQuery j)) w cli
      in case r of
           Inl e \<Rightarrow> (Inl (Wrapf ''failed to request group info'' e), cli1)
         | Inr res \<Rightarrow>
             (case GetOptionalChildByTag res ''error'' of
                Some errorNode \<Rightarrow> (Inl (Errorf ''group info request returned error''), cli1)
              | None \<Rightarrow>
                  (case GetOptionalChildByTag res ''group'' of
                     None \<Rightarrow> (Inl (Errorf ''group info request didn't return group info''), cli1)
                   | Some groupNode \<Rightarrow>
                       (Inr (groupChildren env (GetChildren groupNode)
                               \<lparr>JID = String env (NewJID (agString groupNode ''id'') GroupServer),
                                OwnerJID = String env (agJID groupNode ''creator''),
                                Name = agString groupNode ''subject'',
                                NameSetTime = agInt64 groupNode ''s_t'',
                                NameSetBy = String env (agJID groupNode ''s_o''),
                                GroupCreated = agInt64 groupNode ''creation'',
                                Topic = [], TopicID = [], TopicSetBy = [], TopicSetAt = 0,
                                Announce = False, Locked = False, Participants = []\<rparr>),
                        cli1))))"

section \<open>Marshalling, the participant hash and the identity node\<close>

text \<open>
  \<^verbatim>\<open>marshalMessage\<close>. The second result is \<^verbatim>\<open>nil\<close> for a group destination; for any other
  destination it is what \<^verbatim>\<open>proto.Marshal\<close> gives for a \<^verbatim>\<open>DeviceSentMessage\<close> that is not
  nil and has its destination set, which is not nil.
\<close>

definition marshalMessage :: "'w env \<Rightarrow> jid \<Rightarrow> waMessage \<Rightarrow> error + bytes \<times> bytes option" where
  "marshalMessage env to message =
     (case Marshal env (PMessage message) of
        Inl e \<Rightarrow> Inl (Wrapf ''failed to marshal message'' (External e))
      | Inr plaintext \<Rightarrow>
          if Server to \<noteq> GroupServer then
            (case Marshal env (PDeviceSentMessage (String env to) message) of
               Inl e \<Rightarrow> Inl (Wrapf ''failed to marshal message (for own devices)'' (External e))
             | Inr dsmPlaintext \<Rightarrow> Inr (plaintext, Some dsmPlaintext))
          else Inr (plaintext, None))"

text \<open>\<^verbatim>\<open>strings.Join\<close>.\<close>

fun strings_Join :: "string list \<Rightarrow> string \<Rightarrow> string" where
  "strings_Join [] sep = []"
| "strings_Join [x] sep = x"
| "strings_Join (x # y # ys) sep = x @ sep @ strings_Join (y # ys) sep"

text \<open>
  \<^verbatim>\<open>base64.RawStdEncoding.EncodeToString\<close>: three bytes give four characters of the
  standard alphabet; a last group of one or two bytes gives two or three characters, and
  no padding is written.
\<close>

definition encodeStd :: string where
  "encodeStd = ''ABCDEFGHIJKLMNOPQRSTUVWXYZabcdefghijklmnopqrstuvwxyz0123456789+/''"

definition sextet :: "32 word \<Rightarrow> nat \<Rightarrow> char" where
  "sextet val n = encodeStd ! unat (and (drop_bit n val) 0x3F)"

fun EncodeToString :: "bytes \<Rightarrow> string" where
  "EncodeToString (a # b # c # rest) =
     (let val = or (or (push_bit 16 (ucast a)) (push_bit 8 (ucast b))) (ucast c)
      in [sextet val 18, sextet val 12, sextet val 6, sextet val 0] @ EncodeToString rest)"
| "EncodeToString [a, b] =
     (let val = or (push_bit 16 (ucast a)) (push_bit 8 (ucast b))
      in [sextet val 18, sextet val 12, sextet val 6])"
| "EncodeToString [a] =
     (let val = push_bit 16 (ucast a)
      in [sextet val 18, sextet val 12])"
| "EncodeToString [] = []"

text \<open>
  \<^verbatim>\<open>participantListHashV2\<close>. \<^verbatim>\<open>sort.Strings\<close> orders strings byte by byte, a proper prefix
  first, which is the order of \<open>char list\<close>. The digest \<^verbatim>\<open>sha256.Sum256\<close> is a field of the environment;
  \<^verbatim>\<open>hash[:6]\<close> is its first six bytes.
\<close>

definition participantListHashV2 :: "'w env \<Rightarrow> string list \<Rightarrow> string" where
  "participantListHashV2 env participantJIDs =
     ''2:'' @ EncodeToString (take 6 (Sum256 env (map of_char (strings_Join (sort participantJIDs) []))))"

text \<open>
  The reference definition in the words of the specification: the identifiers in
  ascending order, concatenated, digested, cut to six bytes, encoded, prefixed.
\<close>

definition participant_hash_spec :: "(bytes \<Rightarrow> bytes) \<Rightarrow> string list \<Rightarrow> string" where
  "participant_hash_spec digest ids =
     ''2:'' @ EncodeToString (take 6 (digest (map of_char (concat (sorted_list_of_multiset (mset ids))))))"

definition appendDeviceIdentityNode :: "'w env \<Rightarrow> node \<Rightarrow> error + node" where
  "appendDeviceIdentityNode env n =
     (case Marshal env PAccount of
        Inl e \<Rightarrow> Inl (Wrapf ''failed to marshal device identity'' (External e))
      | Inr deviceIdentity \<Rightarrow>
          Inr (Node (Tag n) (Attrs n)
                 (Children (GetChildren n @
                    [Node ''device-identity'' Map.empty (Bytes deviceIdentity)]))))"

section \<open>The two send paths and the entry point\<close>

text \<open>
  The last statements of \<^verbatim>\<open>sendGroup\<close> and of \<^verbatim>\<open>sendDM\<close> are the same: attach the device
  identity when the fanout asked for it, then hand the node to the transport.
\<close>

definition attachAndSend :: "'w env \<Rightarrow> 'w client \<Rightarrow> bool \<Rightarrow> node \<Rightarrow> error option \<times> 'w client" where
  "attachAndSend env cli includeIdentity n =
     (case (if includeIdentity then appendDeviceIdentityNode env n else Inr n) of
        Inl e \<Rightarrow> (Some e, cli)
      | Inr n' \<Rightarrow>
          (case sendNode env (world cli) n' of
             (Some e, w) \<Rightarrow> (Some (Wrapf ''failed to send message node'' e), emit (EvSendNode n') w cli)
           | (None, w) \<Rightarrow> (None, emit (EvSendNode n') w cli)))"

text \<open>The node literal of \<^verbatim>\<open>sendDM\<close>.\<close>

definition directNode :: "jid \<Rightarrow> string \<Rightarrow> node list \<Rightarrow> node" where
  "directNode to mid participantNodes =
     Node ''message''
       [''id'' \<mapsto> AString mid, ''type'' \<mapsto> AString ''text'', ''to'' \<mapsto> AJID to]
       (Children [Node ''participants'' Map.empty (Children participantNodes)])"

text \<open>The node literal of \<^verbatim>\<open>sendGroup\<close>.\<close>

definition groupNode :: "jid \<Rightarrow> string \<Rightarrow> string \<Rightarrow> node list \<Rightarrow> bytes \<Rightarrow> node" where
  "groupNode to mid phash participantNodes ciphertext =
     Node ''message''
       [''id'' \<mapsto> AString mid, ''type'' \<mapsto> AString ''text'', ''to'' \<mapsto> AJID to,
        ''phash'' \<mapsto> AString phash]
       (Children
          [Node ''participants'' Map.empty (Children participantNodes),
           Node ''enc'' [''v'' \<mapsto> AString ''2'', ''type'' \<mapsto> AString ''skmsg''] (Bytes ciphertext)])"

text \<open>
  \<^verbatim>\<open>sendDM\<close> before the fanout (its lines 138 to 146): marshal, then resolve the devices
  of the recipient and of the sender.
\<close>

definition sendDM_prepare ::
  "'w env \<Rightarrow> 'w client \<Rightarrow> jid \<Rightarrow> waMessage \<Rightarrow> (error + bytes \<times> bytes option \<times> jid list) \<times> 'w client" where
  "sendDM_prepare env cli to message =
     (case marshalMessage env to message of
        Inl e \<Rightarrow> (Inl e, cli)
      | Inr (messagePlaintext, deviceSentMessagePlaintext) \<Rightarrow>
          (case GetUSyncDevices env cli [to, SessionID cli] False of
             (Inl e, cli1) \<Rightarrow> (Inl (Wrapf ''failed to get device list'' e), cli1)
           | (Inr allDevices, cli1) \<Rightarrow>
               (Inr (messagePlaintext, deviceSentMessagePlaintext, allDevices), cli1)))"

text \<open>\<^verbatim>\<open>sendDM\<close> up to and including the fanout (line 147).\<close>

definition sendDM_fanout ::
  "'w env \<Rightarrow> 'w client \<Rightarrow> jid \<Rightarrow> string \<Rightarrow> waMessage \<Rightarrow> (error + node list \<times> bool) \<times> 'w client" where
  "sendDM_fanout env cli to mid message =
     (case sendDM_prepare env cli to message of
        (Inl e, cli1) \<Rightarrow> (Inl e, cli1)
      | (Inr (messagePlaintext, deviceSentMessagePlaintext, allDevices), cli1) \<Rightarrow>
          (case encryptMessageForDevices env cli1 allDevices mid
                  messagePlaintext deviceSentMessagePlaintext of
             (res, cli2) \<Rightarrow> (Inr res, cli2)))"

text \<open>\<^verbatim>\<open>sendDM\<close>: the steps above, then the node, the identity and the transport.\<close>

definition sendDM ::
  "'w env \<Rightarrow> 'w client \<Rightarrow> jid \<Rightarrow> string \<Rightarrow> waMessage \<Rightarrow> error option \<times> 'w client" where
  "sendDM env cli to mid message =
     (case sendDM_fanout env cli to mid message of
        (Inl e, cli1) \<Rightarrow> (Some e, cli1)
      | (Inr (participantNodes, includeIdentity), cli2) \<Rightarrow>
          attachAndSend env cli2 includeIdentity (directNode to mid participantNodes))"

text \<open>
  \<^verbatim>\<open>sendGroup\<close> before the fanout (its lines 64 to 108): the group information, the
  plaintext, the sender key distribution message and its plaintext, the group ciphertext
  of the padded plaintext, and the devices of the participants. The results are the
  group information, the group ciphertext, the plaintext of the distribution message
  and the devices.
\<close>

definition sendGroup_prepare ::
  "'w env \<Rightarrow> 'w client \<Rightarrow> jid \<Rightarrow> waMessage \<Rightarrow>
   (error + groupInfo \<times> bytes \<times> bytes \<times> jid list) \<times> 'w client" where
  "sendGroup_prepare env cli to message =
     (case GetGroupInfo env cli to of
        (Inl e, cli1) \<Rightarrow> (Inl (Wrapf ''failed to get group info'' e), cli1)
      | (Inr info, cli1) \<Rightarrow>
          (case marshalMessage env to message of
             Inl e \<Rightarrow> (Inl e, cli1)
           | Inr (plaintext, unused) \<Rightarrow>
               (let skn = \<lparr>groupID = String env to, sender = SignalAddress env (SessionID cli1)\<rparr>
                in case GroupCreate env (world cli1) skn of
                     (Inl e, w2) \<Rightarrow>
                       (Inl (Wrapf ''failed to create sender key distribution message'' (External e)),
                        emit (EvGroupCreate skn) w2 cli1)
                   | (Inr signalSKDMessage, w2) \<Rightarrow>
                       (case Marshal env (PSenderKeyDistributionMessage (String env to) signalSKDMessage) of
                          Inl e \<Rightarrow>
                            (Inl (Wrapf ''failed to marshal sender key distribution message'' (External e)),
                             emit (EvGroupCreate skn) w2 cli1)
                        | Inr skdPlaintext \<Rightarrow>
                            (let (padded, w3) = padMessage env w2 plaintext;
                                 (r, w4) = GroupEncrypt env w3 skn padded;
                                 cli4 = emit (EvGroupEncrypt skn padded) w4 (emit (EvGroupCreate skn) w2 cli1)
                             in case r of
                                  Inl e \<Rightarrow> (Inl (Wrapf ''failed to encrypt group message'' (External e)), cli4)
                                | Inr ciphertext \<Rightarrow>
                                    (case GetUSyncDevices env cli4 (map FullJID (Participants info)) False of
                                       (Inl e, cli5) \<Rightarrow> (Inl (Wrapf ''failed to get device list'' e), cli5)
                                     | (Inr allDevices, cli5) \<Rightarrow>
                                         (Inr (info, ciphertext, skdPlaintext, allDevices), cli5)))))))"

text \<open>
  \<^verbatim>\<open>sendGroup\<close> up to and including the fanout (line 109), which encrypts the
  distribution message for each device, with no copy for the sender's own devices.
\<close>

definition sendGroup_fanout ::
  "'w env \<Rightarrow> 'w client \<Rightarrow> jid \<Rightarrow> string \<Rightarrow> waMessage \<Rightarrow>
   (error + groupInfo \<times> bytes \<times> node list \<times> bool) \<times> 'w client" where
  "sendGroup_fanout env cli to mid message =
     (case sendGroup_prepare env cli to message of
        (Inl e, cli1) \<Rightarrow> (Inl e, cli1)
      | (Inr (info, ciphertext, skdPlaintext, allDevices), cli5) \<Rightarrow>
          (case encryptMessageForDevices env cli5 allDevices mid skdPlaintext None of
             ((participantNodes, includeIdentity), cli6) \<Rightarrow>
               (Inr (info, ciphertext, participantNodes, includeIdentity), cli6)))"

text \<open>
  \<^verbatim>\<open>sendGroup\<close>: the steps above, then the node with the hash of the participants'
  addresses, the identity and the transport.
\<close>

definition sendGroup ::
  "'w env \<Rightarrow> 'w client \<Rightarrow> jid \<Rightarrow> string \<Rightarrow> waMessage \<Rightarrow> error option \<times> 'w client" where
  "sendGroup env cli to mid message =
     (case sendGroup_fanout env cli to mid message of
        (Inl e, cli1) \<Rightarrow> (Some e, cli1)
      | (Inr (info, ciphertext, participantNodes, includeIdentity), cli6) \<Rightarrow>
          attachAndSend env cli6 includeIdentity
            (groupNode to mid
               (participantListHashV2 env (map (\<lambda>p. String env (FullJID p)) (Participants info)))
               participantNodes ciphertext))"

text \<open>\<^verbatim>\<open>hex.EncodeToString\<close>.\<close>

definition hextable :: string where
  "hextable = ''0123456789abcdef''"

definition hex_EncodeToString :: "bytes \<Rightarrow> string" where
  "hex_EncodeToString src =
     concat (map (\<lambda>v. [hextable ! unat (drop_bit 4 v), hextable ! unat (and v 0x0F)]) src)"

text \<open>
  \<^verbatim>\<open>GenerateMessageID\<close> reads 16 random bytes and panics when the random source fails
  (\<open>Inl\<close>).
\<close>

definition GenerateMessageID :: "'w env \<Rightarrow> 'w client \<Rightarrow> (exterr + string) \<times> 'w client" where
  "GenerateMessageID env cli =
     (case randRead env (world cli) 16 of
        (Inl e, w) \<Rightarrow> (Inl e, emit (EvRandRead 16) w cli)
      | (Inr bs, w) \<Rightarrow> (Inr (hex_EncodeToString bs), emit (EvRandRead 16) w cli))"

datatype sendResult = Panic exterr | Returned "error option"

definition SendMessage ::
  "'w env \<Rightarrow> 'w client \<Rightarrow> jid \<Rightarrow> string \<Rightarrow> waMessage \<Rightarrow> sendResult \<times> 'w client" where
  "SendMessage env cli to mid message =
     (if AD to then (Returned (Some (Errorf ''message recipient must be non-AD JID'')), cli)
      else
        (case (if length mid = 0 then GenerateMessageID env cli else (Inr mid, cli)) of
           (Inl e, cli1) \<Rightarrow> (Panic e, cli1)
         | (Inr mid1, cli1) \<Rightarrow>
             if Server to = GroupServer
             then (case sendGroup env cli1 to mid1 message of (r, cli2) \<Rightarrow> (Returned r, cli2))
             else (case sendDM env cli1 to mid1 message of (r, cli2) \<Rightarrow> (Returned r, cli2))))"

section \<open>Observations on traces and nodes\<close>

text \<open>The events that one operation adds to the trace.\<close>

definition newEvents :: "'w client \<Rightarrow> 'w client \<Rightarrow> event list" where
  "newEvents cli cli' = drop (length (trace cli)) (trace cli')"

fun isFetch :: "event \<Rightarrow> bool" where
  "isFetch (EvFetchPreKeys js) = True"
| "isFetch e = False"

fun isProcessBundleFor :: "jid \<Rightarrow> event \<Rightarrow> bool" where
  "isProcessBundleFor j (EvProcessBundle k b) = (k = j)"
| "isProcessBundleFor j e = False"

text \<open>The number of prekey fetches, and of bundles processed for one device.\<close>

definition fetchCount :: "event list \<Rightarrow> nat" where
  "fetchCount tr = length (filter isFetch tr)"

definition bundleCount :: "jid \<Rightarrow> event list \<Rightarrow> nat" where
  "bundleCount j tr = length (filter (isProcessBundleFor j) tr)"

text \<open>The nodes handed to the transport, in order.\<close>

fun sentNodes :: "event list \<Rightarrow> node list" where
  "sentNodes [] = []"
| "sentNodes (EvSendNode n # tr) = n # sentNodes tr"
| "sentNodes (e # tr) = sentNodes tr"

text \<open>From one client state to a later one, nothing was handed to the transport.\<close>

definition quiet :: "'w client \<Rightarrow> 'w client \<Rightarrow> bool" where
  "quiet cli cli' = (\<exists>new. trace cli' = trace cli @ new \<and> sentNodes new = [])"

text \<open>Requests that go over the network, and calls of the Signal ciphers.\<close>

fun isNetwork :: "event \<Rightarrow> bool" where
  "isNetwork (EvSendIQ q) = True"
| "isNetwork (EvSendNode n) = True"
| "isNetwork (EvFetchPreKeys js) = True"
| "isNetwork e = False"

fun isEncryption :: "event \<Rightarrow> bool" where
  "isEncryption (EvProcessBundle j b) = True"
| "isEncryption (EvEncrypt j p) = True"
| "isEncryption (EvGroupCreate s) = True"
| "isEncryption (EvGroupEncrypt s p) = True"
| "isEncryption e = False"

text \<open>The events that the fanout can add: fetches, bundles, pairwise encryptions.\<close>

fun isFanoutEvent :: "event \<Rightarrow> bool" where
  "isFanoutEvent (EvFetchPreKeys js) = True"
| "isFanoutEvent (EvProcessBundle j b) = True"
| "isFanoutEvent (EvEncrypt j p) = True"
| "isFanoutEvent e = False"

definition identityChildren :: "node \<Rightarrow> node list" where
  "identityChildren n = filter (\<lambda>c. Tag c = ''device-identity'') (GetChildren n)"

definition senderKeyEntries :: "node \<Rightarrow> node list" where
  "senderKeyEntries n =
     filter (\<lambda>c. Tag c = ''enc'' \<and> Attrs c ''type'' = Some (AString ''skmsg'')) (GetChildren n)"

text \<open>The \<^verbatim>\<open>type\<close> attributes of the ciphertext entries of one per-device envelope.\<close>

definition encTypes :: "node \<Rightarrow> attr option list" where
  "encTypes n = map (\<lambda>c. Attrs c ''type'') (GetChildren n)"

definition isPkmsg :: "node \<Rightarrow> bool" where
  "isPkmsg n = (encTypes n = [Some (AString ''pkmsg'')])"

text \<open>
  An assumption about the Signal library that some theorems need: neither padding nor
  encrypting removes a session from the store.
\<close>

definition keepsSessions :: "'w env \<Rightarrow> bool" where
  "keepsSessions env =
     ((\<forall>w p a. ContainsSession env w a \<longrightarrow> ContainsSession env (snd (padMessage env w p)) a) \<and>
      (\<forall>w k p a. ContainsSession env w a \<longrightarrow> ContainsSession env (snd (Encrypt env w k p)) a))"

text \<open>
  A second assumption about the Signal library: the first ciphertext for a session that
  was just set up from a bundle is a prekey message.
\<close>

definition bundleGivesPrekey :: "'w env \<Rightarrow> bool" where
  "bundleGivesPrekey env =
     (\<forall>w a b w1 p ct w3.
        ProcessBundle env w a b = (None, w1) \<longrightarrow>
        Encrypt env (snd (padMessage env w1 p)) a (fst (padMessage env w1 p)) = (Inr ct, w3) \<longrightarrow>
        Type ct = PREKEY_TYPE)"

section \<open>An example environment\<close>

text \<open>
  A small world for concrete runs: the session store is a list of addresses, with the
  sessions whose first message has not been acknowledged yet (\<open>pending\<close>); processing a
  bundle files a pending session; a ciphertext is a prekey message exactly for a pending
  session. The directory knows alice with devices 0 and 1 and bob with device 0; the
  group has alice and bob as participants. The sender is alice's device 0.
\<close>

record exWorld =
  sessions :: "signalAddress list"
  pending :: "signalAddress list"

definition exUserNode :: "string \<Rightarrow> 64 word list \<Rightarrow> node" where
  "exUserNode u ids =
     Node ''user'' [''jid'' \<mapsto> AJID (NewJID u DefaultUserServer)]
       (Children [Node ''devices'' Map.empty
          (Children [Node ''device-list'' Map.empty
             (Children (map (\<lambda>i. Node ''device'' [''id'' \<mapsto> AInt64 i] NoContent) ids))])])"

definition exUsyncResponse :: node where
  "exUsyncResponse =
     Node ''iq'' Map.empty
       (Children [Node ''usync'' Map.empty
          (Children [Node ''list'' Map.empty
             (Children [exUserNode ''alice'' [0, 1], exUserNode ''bob'' [0]])])])"

definition exGroupResponse :: node where
  "exGroupResponse =
     Node ''iq'' Map.empty
       (Children [Node ''group'' [''id'' \<mapsto> AString ''g1'', ''subject'' \<mapsto> AString ''friends'']
          (Children
             [Node ''participant''
                [''jid'' \<mapsto> AJID (NewJID ''alice'' DefaultUserServer), ''type'' \<mapsto> AString ''admin'']
                NoContent,
              Node ''participant'' [''jid'' \<mapsto> AJID (NewJID ''bob'' DefaultUserServer)] NoContent])])"

definition exEnv :: "exWorld env" where
  "exEnv =
     \<lparr>SignalAddress = (\<lambda>j. \<lparr>addrName = User j, addrDeviceID = ucast (Device j)\<rparr>),
      String = (\<lambda>j. User j @ ''@'' @ Server j),
      ContainsSession = (\<lambda>w a. a \<in> set (sessions w)),
      ProcessBundle = (\<lambda>w a b. (None, w\<lparr>sessions := a # sessions w, pending := a # pending w\<rparr>)),
      Encrypt = (\<lambda>w a p. (Inr (CiphertextMessage (if a \<in> set (pending w) then PREKEY_TYPE else 2) p), w)),
      GroupCreate = (\<lambda>w n. (Inr [7], w)),
      GroupEncrypt = (\<lambda>w n p. (Inr p, w)),
      padMessage = (\<lambda>w p. (p @ [1], w)),
      Marshal = (\<lambda>p. Inr (case p of PMessage m \<Rightarrow> [1] | PSenderKeyDistributionMessage g k \<Rightarrow> [2]
                               | PDeviceSentMessage d m \<Rightarrow> [3] | PAccount \<Rightarrow> [4])),
      fetchPreKeys = (\<lambda>w js. (Inr (\<lambda>j. if j \<in> set js then Some \<lparr>bundle = Some (Bundle 0), err = None\<rparr> else None), w)),
      sendIQ = (\<lambda>w q. (Inr (if iqNamespace q = ''usync'' then exUsyncResponse else exGroupResponse), w)),
      sendNode = (\<lambda>w n. (None, w)),
      generateRequestID = (\<lambda>w. (''1'', w)),
      randRead = (\<lambda>w n. (Inr (replicate n 0), w)),
      Sum256 = (\<lambda>bs. replicate 32 0)\<rparr>"

definition alice0 :: jid where
  "alice0 = NewADJID ''alice'' 0 0"

definition alice1 :: jid where
  "alice1 = NewADJID ''alice'' 0 1"

definition bob0 :: jid where
  "bob0 = NewADJID ''bob'' 0 0"

definition alice :: jid where
  "alice = NewJID ''alice'' DefaultUserServer"

definition bob :: jid where
  "bob = NewJID ''bob'' DefaultUserServer"

definition grp :: jid where
  "grp = NewJID ''g1'' GroupServer"

text \<open>The client of alice's device 0 with the given sessions, the pending ones among them.\<close>

definition exClient :: "signalAddress list \<Rightarrow> signalAddress list \<Rightarrow> exWorld client" where
  "exClient ss ps = \<lparr>SessionID = alice0, world = \<lparr>sessions = ss, pending = ps\<rparr>, trace = []\<rparr>"

text \<open>Variants of the environment in which one collaborator fails.\<close>

definition exEnvFetchFails :: "exWorld env" where
  "exEnvFetchFails = exEnv\<lparr>fetchPreKeys := (\<lambda>w js. (Inl (Errorf ''prekey request timed out''), w))\<rparr>"

definition exEnvMarshalFails :: "exWorld env" where
  "exEnvMarshalFails = exEnv\<lparr>Marshal := (\<lambda>p. Inl (ExtErr ''marshal''))\<rparr>"

definition exEnvEncryptFails :: "exWorld env" where
  "exEnvEncryptFails = exEnv\<lparr>Encrypt := (\<lambda>w a p. (Inl (ExtErr ''cipher''), w))\<rparr>"

definition exEnvIQFails :: "exWorld env" where
  "exEnvIQFails = exEnv\<lparr>sendIQ := (\<lambda>w q. (Inl (Errorf ''request timed out''), w))\<rparr>"

definition exEnvUsyncFails :: "exWorld env" where
  "exEnvUsyncFails =
     exEnv\<lparr>sendIQ := (\<lambda>w q. (if iqNamespace q = ''usync'' then Inl (Errorf ''request timed out'')
                               else Inr exGroupResponse, w))\<rparr>"

text \<open>The envelope that \<^verbatim>\<open>encryptMessageForDevice\<close> builds, for stating concrete runs.\<close>

definition exEnvelope :: "jid \<Rightarrow> string \<Rightarrow> bytes \<Rightarrow> node" where
  "exEnvelope to encType ct =
     Node ''to'' [''jid'' \<mapsto> AJID to]
       (Children [Node ''enc'' [''v'' \<mapsto> AString ''2'', ''type'' \<mapsto> AString encType] (Bytes ct)])"

section \<open>The fanout: calls of the collaborators\<close>

lemma emit_simps [simp]:
  "trace (emit e w cli) = trace cli @ [e]"
  "world (emit e w cli) = w"
  "SessionID (emit e w cli) = SessionID cli"
  by (simp_all add: emit_def)

lemma counts_simps [simp]:
  "fetchCount [] = 0" "fetchCount (tr @ tr') = fetchCount tr + fetchCount tr'"
  "fetchCount (e # tr) = (if isFetch e then 1 else 0) + fetchCount tr"
  "bundleCount j [] = 0" "bundleCount j (tr @ tr') = bundleCount j tr + bundleCount j tr'"
  "bundleCount j (e # tr) = (if isProcessBundleFor j e then 1 else 0) + bundleCount j tr"
  by (simp_all add: fetchCount_def bundleCount_def)

lemma encryptMessageForDevice_events:
  assumes "encryptMessageForDevice env cli plaintext to b = (r, cli')"
  shows "\<exists>new. trace cli' = trace cli @ new \<and> fetchCount new = 0 \<and>
           (\<forall>j. bundleCount j new \<le> (if j = to \<and> b \<noteq> None then 1 else 0)) \<and>
           SessionID cli' = SessionID cli"
  using assms
  by (auto simp: encryptMessageForDevice_def Let_def split: if_splits option.splits prod.splits sum.splits)

lemma newEvents_append: "trace cli' = trace cli @ new \<Longrightarrow> newEvents cli cli' = new"
  by (simp add: newEvents_def)

lemma firstPass_events:
  "firstPass env m d js (cli, ns, inc, rs) = (cli', ns', inc', rs') \<Longrightarrow>
   \<exists>new add. trace cli' = trace cli @ new \<and> fetchCount new = 0 \<and>
     (\<forall>j. bundleCount j new = 0) \<and> SessionID cli' = SessionID cli \<and>
     rs' = rs @ add \<and> (\<forall>j. count_list add j \<le> count_list js j)"
proof (induction js arbitrary: cli ns inc rs)
  case Nil
  then show ?case by simp
next
  case (Cons j js)
  obtain r cli1 where step: "encryptMessageForDevice env cli (choosePlaintext cli j m d) j None = (r, cli1)"
    by (cases "encryptMessageForDevice env cli (choosePlaintext cli j m d) j None")
  from encryptMessageForDevice_events [OF step]
  obtain new1 where n1: "trace cli1 = trace cli @ new1" "fetchCount new1 = 0"
    "\<forall>k. bundleCount k new1 = 0" "SessionID cli1 = SessionID cli"
    by auto
  from Cons.prems step
  obtain ns1 inc1 rs1 where rest: "firstPass env m d js (cli1, ns1, inc1, rs1) = (cli', ns', inc', rs')"
    and rs1: "rs1 = rs \<or> rs1 = rs @ [j]"
    by (auto split: sum.splits if_splits prod.splits)
  from Cons.IH [OF rest]
  obtain new2 add2 where n2: "trace cli' = trace cli1 @ new2" "fetchCount new2 = 0"
    "\<forall>k. bundleCount k new2 = 0" "SessionID cli' = SessionID cli1"
    "rs' = rs1 @ add2" "\<forall>k. count_list add2 k \<le> count_list js k"
    by blast
  from rs1 show ?case
  proof
    assume "rs1 = rs"
    with n1 n2 have "trace cli' = trace cli @ (new1 @ new2) \<and> fetchCount (new1 @ new2) = 0 \<and>
      (\<forall>k. bundleCount k (new1 @ new2) = 0) \<and> SessionID cli' = SessionID cli \<and>
      rs' = rs @ add2 \<and> (\<forall>k. count_list add2 k \<le> count_list (j # js) k)"
      by (auto intro: le_SucI)
    then show ?thesis by blast
  next
    assume "rs1 = rs @ [j]"
    with n1 n2 have "trace cli' = trace cli @ (new1 @ new2) \<and> fetchCount (new1 @ new2) = 0 \<and>
      (\<forall>k. bundleCount k (new1 @ new2) = 0) \<and> SessionID cli' = SessionID cli \<and>
      rs' = rs @ (j # add2) \<and> (\<forall>k. count_list (j # add2) k \<le> count_list (j # js) k)"
      by auto
    then show ?thesis by blast
  qed
qed

lemma retryPass_events:
  "retryPass env m d bundles js (cli, ns, inc) = (cli', ns', inc') \<Longrightarrow>
   \<exists>new. trace cli' = trace cli @ new \<and> fetchCount new = 0 \<and>
     (\<forall>j. bundleCount j new \<le> count_list js j) \<and> SessionID cli' = SessionID cli"
proof (induction js arbitrary: cli ns inc)
  case Nil
  then show ?case by simp
next
  case (Cons j js)
  show ?case
  proof (cases "err (lookupResp bundles j)")
    case (Some e)
    with Cons.prems have "retryPass env m d bundles js (cli, ns, inc) = (cli', ns', inc')"
      by (simp add: Let_def)
    from Cons.IH [OF this] show ?thesis
      by (auto intro: le_SucI)
  next
    case None
    obtain r cli1 where step:
      "encryptMessageForDevice env cli (choosePlaintext cli j m d) j (bundle (lookupResp bundles j)) = (r, cli1)"
      by (cases "encryptMessageForDevice env cli (choosePlaintext cli j m d) j (bundle (lookupResp bundles j))")
    from encryptMessageForDevice_events [OF step]
    obtain new1 where n1: "trace cli1 = trace cli @ new1" "fetchCount new1 = 0"
      and b1: "\<forall>k. bundleCount k new1 \<le> (if k = j \<and> bundle (lookupResp bundles j) \<noteq> None then 1 else 0)"
      and n1s: "SessionID cli1 = SessionID cli"
      by blast
    have n1b: "bundleCount k new1 \<le> (if k = j then 1 else 0)" for k
      using b1 [rule_format, of k] by (cases "k = j") (auto split: if_splits)
    from Cons.prems None step
    obtain ns1 inc1 where rest: "retryPass env m d bundles js (cli1, ns1, inc1) = (cli', ns', inc')"
      by (auto simp: Let_def split: sum.splits prod.splits)
    from Cons.IH [OF rest]
    obtain new2 where n2: "trace cli' = trace cli1 @ new2" "fetchCount new2 = 0"
      "\<forall>k. bundleCount k new2 \<le> count_list js k" "SessionID cli' = SessionID cli1"
      by blast
    have "\<forall>k. bundleCount k (new1 @ new2) \<le> count_list (j # js) k"
    proof
      fix k
      have "bundleCount k new1 \<le> (if k = j then 1 else 0)" by (rule n1b)
      moreover from n2(3) have "bundleCount k new2 \<le> count_list js k" by blast
      ultimately show "bundleCount k (new1 @ new2) \<le> count_list (j # js) k"
        by (auto split: if_splits)
    qed
    with n1 n1s n2 have "trace cli' = trace cli @ (new1 @ new2) \<and> fetchCount (new1 @ new2) = 0 \<and>
      (\<forall>k. bundleCount k (new1 @ new2) \<le> count_list (j # js) k) \<and> SessionID cli' = SessionID cli"
      by simp
    then show ?thesis by blast
  qed
qed

lemma count_list_le_1: "distinct xs \<Longrightarrow> count_list xs x \<le> 1"
  by (induction xs) auto

lemma fetchCount_0_notin: "fetchCount tr = 0 \<Longrightarrow> EvFetchPreKeys js \<notin> set tr"
  by (induction tr) (auto split: if_splits)

lemma fanout_trace:
  assumes fp: "firstPass env m d allDevices (cli, [], False, []) = (cli1, ns, inc, rs)"
  shows "\<exists>new1 new2. trace cli1 = trace cli @ new1 \<and> fetchCount new1 = 0 \<and>
     (\<forall>j. bundleCount j new1 = 0) \<and> (\<forall>j. count_list rs j \<le> count_list allDevices j) \<and>
     trace (snd (encryptMessageForDevices env cli allDevices mid m d)) =
       trace cli @ new1 @ (if rs = [] then [] else EvFetchPreKeys rs # new2) \<and>
     fetchCount new2 = 0 \<and> (\<forall>j. bundleCount j new2 \<le> count_list rs j)"
proof -
  from firstPass_events [OF fp]
  obtain new1 where n1: "trace cli1 = trace cli @ new1" "fetchCount new1 = 0"
    "\<forall>j. bundleCount j new1 = 0" and rs: "\<forall>j. count_list rs j \<le> count_list allDevices j"
    by auto
  show ?thesis
  proof (cases "rs = []")
    case True
    with fp n1 have "trace (snd (encryptMessageForDevices env cli allDevices mid m d)) =
        trace cli @ new1 @ (if rs = [] then [] else EvFetchPreKeys rs # [])"
      by (simp add: encryptMessageForDevices_def)
    with n1 rs show ?thesis
      by (metis bundleCount_def counts_simps(1) filter.simps(1) list.size(3) zero_le)
  next
    case False
    obtain r w where f: "fetchPreKeys env (world cli1) rs = (r, w)"
      by (cases "fetchPreKeys env (world cli1) rs")
    show ?thesis
    proof (cases r)
      case (Inl e)
      with fp n1 f False
      have "trace (snd (encryptMessageForDevices env cli allDevices mid m d)) =
          trace cli @ new1 @ (if rs = [] then [] else EvFetchPreKeys rs # [])"
        by (simp add: encryptMessageForDevices_def)
      with n1 rs show ?thesis
        by (metis bundleCount_def counts_simps(1) filter.simps(1) list.size(3) zero_le)
    next
      case (Inr bundles)
      obtain cli2 ns2 inc2 where rp:
        "retryPass env m d bundles rs (emit (EvFetchPreKeys rs) w cli1, ns, inc) = (cli2, ns2, inc2)"
        by (cases "retryPass env m d bundles rs (emit (EvFetchPreKeys rs) w cli1, ns, inc)") auto
      from retryPass_events [OF rp]
      obtain new2 where n2: "trace cli2 = trace cli1 @ [EvFetchPreKeys rs] @ new2" "fetchCount new2 = 0"
        "\<forall>j. bundleCount j new2 \<le> count_list rs j"
        by auto
      have "trace (snd (encryptMessageForDevices env cli allDevices mid m d)) =
          trace cli @ new1 @ (if rs = [] then [] else EvFetchPreKeys rs # new2)"
        using fp f Inr rp False n1 n2 by (simp add: encryptMessageForDevices_def)
      with n1 n2 rs show ?thesis by blast
    qed
  qed
qed

lemma encryptMessageForDevices_events:
  "\<exists>new. trace (snd (encryptMessageForDevices env cli allDevices mid m d)) = trace cli @ new \<and>
     fetchCount new \<le> 1 \<and> (\<forall>j. bundleCount j new \<le> count_list allDevices j)"
proof -
  obtain cli1 ns inc rs where fp: "firstPass env m d allDevices (cli, [], False, []) = (cli1, ns, inc, rs)"
    by (cases "firstPass env m d allDevices (cli, [], False, [])") auto
  from fanout_trace [OF fp, of mid]
  obtain new1 new2 where n: "fetchCount new1 = 0" "\<forall>j. bundleCount j new1 = 0"
    "\<forall>j. count_list rs j \<le> count_list allDevices j"
    "trace (snd (encryptMessageForDevices env cli allDevices mid m d)) =
       trace cli @ new1 @ (if rs = [] then [] else EvFetchPreKeys rs # new2)"
    "fetchCount new2 = 0" "\<forall>j. bundleCount j new2 \<le> count_list rs j"
    by blast
  have "bundleCount j (new1 @ (if rs = [] then [] else EvFetchPreKeys rs # new2)) \<le> count_list allDevices j"
    for j
    using n(2) [rule_format, of j] n(3) [rule_format, of j] n(6) [rule_format, of j] by simp
  moreover have "fetchCount (new1 @ (if rs = [] then [] else EvFetchPreKeys rs # new2)) \<le> 1"
    using n(1,5) by simp
  ultimately show ?thesis using n(4) by blast
qed

text \<open>
  Claim C1. Whatever the devices given to \<^verbatim>\<open>encryptMessageForDevices\<close> and whatever the
  collaborators do, one fanout asks for prekey bundles at most once, and it processes a
  bundle for a device at most as often as the device occurs in the list: at most once
  per device when the devices are a set, that is, a list without repetition.
\<close>

theorem fanout_one_fetch_one_bundle_per_device:
  "fetchCount (newEvents cli (snd (encryptMessageForDevices env cli allDevices mid m d))) \<le> 1 \<and>
   (\<forall>j. bundleCount j (newEvents cli (snd (encryptMessageForDevices env cli allDevices mid m d)))
        \<le> count_list allDevices j) \<and>
   (distinct allDevices \<longrightarrow>
     (\<forall>j. bundleCount j (newEvents cli (snd (encryptMessageForDevices env cli allDevices mid m d))) \<le> 1))"
proof -
  from encryptMessageForDevices_events [of env cli allDevices mid m d]
  obtain new where n: "trace (snd (encryptMessageForDevices env cli allDevices mid m d)) = trace cli @ new"
    "fetchCount new \<le> 1" "\<forall>j. bundleCount j new \<le> count_list allDevices j"
    by blast
  from n(1) have eq: "newEvents cli (snd (encryptMessageForDevices env cli allDevices mid m d)) = new"
    by (rule newEvents_append)
  have "distinct allDevices \<Longrightarrow> bundleCount j new \<le> 1" for j
    using n(3) [rule_format, of j] count_list_le_1 [of allDevices j] by linarith
  with n eq show ?thesis by simp
qed

lemma exFanout_run:
  "newEvents (exClient [] []) (snd (encryptMessageForDevices exEnv (exClient [] []) [alice1, bob0] ''id1'' [1] (Some [3])))
   = [EvFetchPreKeys [alice1, bob0], EvProcessBundle alice1 (Bundle 0), EvEncrypt alice1 [3, 1],
      EvProcessBundle bob0 (Bundle 0), EvEncrypt bob0 [1, 1]]"
  by (simp add: newEvents_def encryptMessageForDevices_def encryptMessageForDevice_def exEnv_def exClient_def
     alice0_def alice1_def bob0_def NewADJID_def choosePlaintext_def lookupResp_def Let_def)

theorem fanout_one_fetch_one_bundle_per_device_witness:
  "distinct [alice1, bob0] \<and>
   fetchCount (newEvents (exClient [] []) (snd (encryptMessageForDevices exEnv (exClient [] []) [alice1, bob0] ''id1'' [1] (Some [3])))) \<le> 1 \<and>
   (\<forall>j. bundleCount j (newEvents (exClient [] [])
          (snd (encryptMessageForDevices exEnv (exClient [] []) [alice1, bob0] ''id1'' [1] (Some [3])))) \<le> 1)"
  using fanout_one_fetch_one_bundle_per_device [of "exClient [] []" exEnv "[alice1, bob0]" "''id1''" "[1]" "Some [3]"]
  by (simp add: alice1_def bob0_def NewADJID_def)

lemma encryptMessageForDevice_NoSession_iff:
  "(\<exists>e. fst (encryptMessageForDevice env cli pt to b) = Inl e \<and> errors_Is_ErrNoSession e) \<longleftrightarrow>
   (\<not> ContainsSession env (world cli) (SignalAddress env to) \<and> b = None)"
  by (auto simp: encryptMessageForDevice_def Let_def split: if_splits option.splits prod.splits sum.splits)

lemma encryptMessageForDevice_keeps:
  assumes "keepsSessions env" "ContainsSession env (world cli) a"
    and "encryptMessageForDevice env cli pt to None = (r, cli')"
  shows "ContainsSession env (world cli') a"
proof -
  from assms(1) have pad: "\<And>w p. ContainsSession env w a \<Longrightarrow> ContainsSession env (snd (padMessage env w p)) a"
    and enc: "\<And>w k p. ContainsSession env w a \<Longrightarrow> ContainsSession env (snd (Encrypt env w k p)) a"
    by (auto simp: keepsSessions_def)
  show ?thesis
  proof (cases "ContainsSession env (world cli) (SignalAddress env to)")
    case False
    with assms(2,3) show ?thesis
      by (simp add: encryptMessageForDevice_def Let_def)
  next
    case True
    obtain padded w2 where p: "padMessage env (world cli) pt = (padded, w2)"
      by (cases "padMessage env (world cli) pt")
    obtain r3 w3 where e: "Encrypt env w2 (SignalAddress env to) padded = (r3, w3)"
      by (cases "Encrypt env w2 (SignalAddress env to) padded")
    from pad [OF assms(2), of pt] p have "ContainsSession env w2 a" by simp
    from enc [OF this, of "SignalAddress env to" padded] e have "ContainsSession env w3 a" by simp
    moreover from True p e assms(3) have "world cli' = w3"
      by (auto simp: encryptMessageForDevice_def Let_def split: sum.splits)
    ultimately show ?thesis by simp
  qed
qed

lemma firstPass_retry_no_session:
  assumes "keepsSessions env"
  shows "ContainsSession env (world cli) (SignalAddress env j) \<Longrightarrow>
     firstPass env m d js (cli, ns, inc, rs) = (cli', ns', inc', rs') \<Longrightarrow> j \<notin> set rs \<Longrightarrow> j \<notin> set rs'"
proof (induction js arbitrary: cli ns inc rs)
  case Nil
  then show ?case by simp
next
  case (Cons k js)
  obtain r cli1 where step: "encryptMessageForDevice env cli (choosePlaintext cli k m d) k None = (r, cli1)"
    by (cases "encryptMessageForDevice env cli (choosePlaintext cli k m d) k None")
  have keep: "ContainsSession env (world cli1) (SignalAddress env j)"
    by (rule encryptMessageForDevice_keeps [OF assms Cons.prems(1) step])
  show ?case
  proof (cases "\<exists>e. r = Inl e \<and> errors_Is_ErrNoSession e")
    case True
    with step have "\<exists>e. fst (encryptMessageForDevice env cli (choosePlaintext cli k m d) k None) = Inl e
        \<and> errors_Is_ErrNoSession e" by simp
    then have "\<not> ContainsSession env (world cli) (SignalAddress env k)"
      by (simp add: encryptMessageForDevice_NoSession_iff)
    with Cons.prems(1) have "k \<noteq> j" by auto
    from True step Cons.prems(2) have "firstPass env m d js (cli1, ns, inc, rs @ [k]) = (cli', ns', inc', rs')"
      by auto
    from Cons.IH [OF keep this] \<open>k \<noteq> j\<close> Cons.prems(3) show ?thesis by simp
  next
    case False
    with step Cons.prems(2) obtain ns1 inc1 where
      "firstPass env m d js (cli1, ns1, inc1, rs) = (cli', ns', inc', rs')"
      by (cases r) (auto split: if_splits)
    from Cons.IH [OF keep this Cons.prems(3)] show ?thesis .
  qed
qed


lemma fanout_fetch_is_retry:
  assumes fp: "firstPass env m d allDevices (cli, [], False, []) = (cli1, ns, inc, rs)"
    and ev: "EvFetchPreKeys js \<in> set (newEvents cli (snd (encryptMessageForDevices env cli allDevices mid m d)))"
  shows "js = rs"
proof -
  from fanout_trace [OF fp, of mid]
  obtain new1 new2 where n: "fetchCount new1 = 0"
    "trace (snd (encryptMessageForDevices env cli allDevices mid m d)) =
       trace cli @ new1 @ (if rs = [] then [] else EvFetchPreKeys rs # new2)"
    "fetchCount new2 = 0"
    by blast
  from n(2) have "newEvents cli (snd (encryptMessageForDevices env cli allDevices mid m d)) =
      new1 @ (if rs = [] then [] else EvFetchPreKeys rs # new2)"
    by (rule newEvents_append)
  with ev have "EvFetchPreKeys js \<in> set new1 \<or> EvFetchPreKeys js = EvFetchPreKeys rs \<or>
      EvFetchPreKeys js \<in> set new2"
    by (auto split: if_splits)
  with n(1,3) show ?thesis
    by (auto dest: fetchCount_0_notin)
qed

text \<open>
  Claim C2. \<^verbatim>\<open>encryptMessageForDevice\<close> ends with \<^verbatim>\<open>ErrNoSession\<close> exactly when the
  device has no session and no bundle is supplied; so with a bundle, as in the retry
  pass, that error cannot occur. When padding and encrypting keep the sessions of the
  store, a device that has a session when the fanout starts is not deferred by the
  first pass, and no prekey fetch of the fanout names it.
\<close>

theorem session_never_deferred_bundle_never_NoSession:
  "((\<exists>e. fst (encryptMessageForDevice env cli pt to b) = Inl e \<and> errors_Is_ErrNoSession e) \<longleftrightarrow>
      (\<not> ContainsSession env (world cli) (SignalAddress env to) \<and> b = None)) \<and>
   (b \<noteq> None \<longrightarrow>
      \<not> (\<exists>e. fst (encryptMessageForDevice env cli pt to b) = Inl e \<and> errors_Is_ErrNoSession e)) \<and>
   (keepsSessions env \<and> ContainsSession env (world cli) (SignalAddress env j) \<longrightarrow>
      j \<notin> set (snd (snd (snd (firstPass env m d allDevices (cli, [], False, []))))) \<and>
      (\<forall>js. EvFetchPreKeys js \<in> set (newEvents cli (snd (encryptMessageForDevices env cli allDevices mid m d)))
           \<longrightarrow> j \<notin> set js))"
proof (intro conjI impI allI)
  show iff: "(\<exists>e. fst (encryptMessageForDevice env cli pt to b) = Inl e \<and> errors_Is_ErrNoSession e) \<longleftrightarrow>
      (\<not> ContainsSession env (world cli) (SignalAddress env to) \<and> b = None)"
    by (rule encryptMessageForDevice_NoSession_iff)
  show "\<not> (\<exists>e. fst (encryptMessageForDevice env cli pt to b) = Inl e \<and> errors_Is_ErrNoSession e)"
    if "b \<noteq> None"
    using that iff by blast
next
  assume h: "keepsSessions env \<and> ContainsSession env (world cli) (SignalAddress env j)"
  obtain cli1 ns inc rs where fp: "firstPass env m d allDevices (cli, [], False, []) = (cli1, ns, inc, rs)"
    by (cases "firstPass env m d allDevices (cli, [], False, [])") auto
  from h have "j \<notin> set rs"
    using firstPass_retry_no_session [OF _ _ fp, of j] by simp
  with fp show "j \<notin> set (snd (snd (snd (firstPass env m d allDevices (cli, [], False, [])))))"
    by simp
  fix js
  assume "EvFetchPreKeys js \<in> set (newEvents cli (snd (encryptMessageForDevices env cli allDevices mid m d)))"
  from fanout_fetch_is_retry [OF fp this] \<open>j \<notin> set rs\<close> show "j \<notin> set js"
    by simp
qed

lemma keepsSessions_exEnv: "keepsSessions exEnv"
  by (simp add: keepsSessions_def exEnv_def)

lemma exFanout_run2:
  "newEvents (exClient [SignalAddress exEnv bob0] []) (snd (encryptMessageForDevices exEnv (exClient [SignalAddress exEnv bob0] []) [alice1, bob0] ''id1'' [1] (Some [3])))
   = [EvEncrypt bob0 [1, 1], EvFetchPreKeys [alice1], EvProcessBundle alice1 (Bundle 0), EvEncrypt alice1 [3, 1]]"
  by (simp add: newEvents_def encryptMessageForDevices_def encryptMessageForDevice_def exEnv_def exClient_def
     alice0_def alice1_def bob0_def NewADJID_def choosePlaintext_def lookupResp_def Let_def)

theorem session_never_deferred_bundle_never_NoSession_witness:
  "keepsSessions exEnv \<and>
   ContainsSession exEnv (world (exClient [SignalAddress exEnv bob0] [])) (SignalAddress exEnv bob0) \<and>
   bob0 \<notin> set (snd (snd (snd (firstPass exEnv [1] (Some [3]) [alice1, bob0]
                (exClient [SignalAddress exEnv bob0] [], [], False, []))))) \<and>
   EvFetchPreKeys [alice1] \<in> set (newEvents (exClient [SignalAddress exEnv bob0] [])
      (snd (encryptMessageForDevices exEnv (exClient [SignalAddress exEnv bob0] []) [alice1, bob0] ''id1'' [1] (Some [3])))) \<and>
   bob0 \<notin> set [alice1] \<and>
   Some (Bundle 0) \<noteq> None \<and>
   \<not> (\<exists>e. fst (encryptMessageForDevice exEnv (exClient [SignalAddress exEnv bob0] []) [1] alice1 (Some (Bundle 0))) = Inl e
         \<and> errors_Is_ErrNoSession e)"
proof -
  have c: "ContainsSession exEnv (world (exClient [SignalAddress exEnv bob0] [])) (SignalAddress exEnv bob0)"
    by (simp add: exEnv_def exClient_def)
  have f: "EvFetchPreKeys [alice1] \<in> set (newEvents (exClient [SignalAddress exEnv bob0] [])
      (snd (encryptMessageForDevices exEnv (exClient [SignalAddress exEnv bob0] []) [alice1, bob0] ''id1'' [1] (Some [3]))))"
    by (simp add: exFanout_run2)
  have s: "Some (Bundle 0) \<noteq> None" by simp
  from session_never_deferred_bundle_never_NoSession
    [of exEnv "exClient [SignalAddress exEnv bob0] []" "[1]" alice1 "Some (Bundle 0)" bob0 "[1]" "Some [3]"
        "[alice1, bob0]" "''id1''"]
    keepsSessions_exEnv c f s
  show ?thesis by blast
qed

section \<open>The participant hash\<close>

lemma strings_Join_empty: "strings_Join xs [] = concat xs"
  by (induction xs "[] :: string" rule: strings_Join.induct) simp_all

lemma sort_mset_cong: "mset xs = mset ys \<Longrightarrow> sort xs = sort (ys :: 'a :: linorder list)"
  by (metis sorted_list_of_multiset_mset)

text \<open>
  Claim C4. \<^verbatim>\<open>participantListHashV2\<close> is the reference definition (sort, concatenate,
  digest, first six bytes, base64 without padding, prefix \<^verbatim>\<open>2:\<close>), and two lists with
  the same elements, in any order, have the same hash.
\<close>

theorem participantListHashV2_is_reference:
  "participantListHashV2 env ids = participant_hash_spec (Sum256 env) ids \<and>
   (mset ids = mset ids' \<longrightarrow> participantListHashV2 env ids = participantListHashV2 env ids')"
proof
  show "participantListHashV2 env ids = participant_hash_spec (Sum256 env) ids"
    by (simp add: participantListHashV2_def participant_hash_spec_def strings_Join_empty)
  show "mset ids = mset ids' \<longrightarrow> participantListHashV2 env ids = participantListHashV2 env ids'"
    by (auto simp: participantListHashV2_def dest: sort_mset_cong)
qed

theorem participantListHashV2_is_reference_witness:
  "mset [''b@s'', ''a@s''] = mset [''a@s'', ''b@s''] \<and>
   participantListHashV2 exEnv [''b@s'', ''a@s''] = participantListHashV2 exEnv [''a@s'', ''b@s''] \<and>
   participantListHashV2 exEnv [''b@s'', ''a@s''] = participant_hash_spec (Sum256 exEnv) [''b@s'', ''a@s'']"
proof -
  have m: "mset [''b@s'', ''a@s''] = mset [''a@s'', ''b@s'']"
    by simp
  from participantListHashV2_is_reference [of exEnv "[''b@s'', ''a@s'']" "[''a@s'', ''b@s'']"] m
  show ?thesis by blast
qed

section \<open>Events of the fanout and of the queries\<close>

lemma encryptMessageForDevice_fanoutEvents:
  assumes "encryptMessageForDevice env cli plaintext to b = (r, cli')"
  shows "\<exists>new. trace cli' = trace cli @ new \<and> list_all isFanoutEvent new"
  using assms
  by (auto simp: encryptMessageForDevice_def Let_def split: if_splits option.splits prod.splits sum.splits)

lemma firstPass_fanoutEvents:
  "firstPass env m d js (cli, acc) = (cli', acc') \<Longrightarrow>
   \<exists>new. trace cli' = trace cli @ new \<and> list_all isFanoutEvent new"
proof (induction js arbitrary: cli acc)
  case Nil
  then show ?case by simp
next
  case (Cons j js)
  obtain r cli1 where step: "encryptMessageForDevice env cli (choosePlaintext cli j m d) j None = (r, cli1)"
    by (cases "encryptMessageForDevice env cli (choosePlaintext cli j m d) j None")
  from encryptMessageForDevice_fanoutEvents [OF step]
  obtain new1 where n1: "trace cli1 = trace cli @ new1" "list_all isFanoutEvent new1"
    by blast
  from Cons.prems step
  obtain acc1 where "firstPass env m d js (cli1, acc1) = (cli', acc')"
    by (cases acc) (auto split: sum.splits if_splits prod.splits)
  from Cons.IH [OF this]
  obtain new2 where "trace cli' = trace cli1 @ new2" "list_all isFanoutEvent new2"
    by blast
  with n1 have "trace cli' = trace cli @ (new1 @ new2) \<and> list_all isFanoutEvent (new1 @ new2)"
    by simp
  then show ?case by blast
qed

lemma retryPass_fanoutEvents:
  "retryPass env m d bundles js (cli, acc) = (cli', acc') \<Longrightarrow>
   \<exists>new. trace cli' = trace cli @ new \<and> list_all isFanoutEvent new"
proof (induction js arbitrary: cli acc)
  case Nil
  then show ?case by simp
next
  case (Cons j js)
  obtain r cli1 where step:
    "encryptMessageForDevice env cli (choosePlaintext cli j m d) j (bundle (lookupResp bundles j)) = (r, cli1)"
    by (cases "encryptMessageForDevice env cli (choosePlaintext cli j m d) j (bundle (lookupResp bundles j))")
  from encryptMessageForDevice_fanoutEvents [OF step]
  obtain new1 where n1: "trace cli1 = trace cli @ new1" "list_all isFanoutEvent new1"
    by blast
  from Cons.prems step
  obtain acc1 cliA where rest: "retryPass env m d bundles js (cliA, acc1) = (cli', acc')"
    and cliA: "cliA = cli \<or> cliA = cli1"
    by (cases acc) (auto simp: Let_def split: sum.splits option.splits prod.splits)
  from Cons.IH [OF rest]
  obtain new2 where n2: "trace cli' = trace cliA @ new2" "list_all isFanoutEvent new2"
    by blast
  from cliA show ?case
  proof
    assume "cliA = cli"
    with n2 show ?thesis by blast
  next
    assume "cliA = cli1"
    with n1 n2 have "trace cli' = trace cli @ (new1 @ new2) \<and> list_all isFanoutEvent (new1 @ new2)"
      by simp
    then show ?thesis by blast
  qed
qed

lemma encryptMessageForDevices_fanoutEvents:
  "\<exists>new. trace (snd (encryptMessageForDevices env cli allDevices mid m d)) = trace cli @ new \<and>
     list_all isFanoutEvent new"
proof -
  obtain cli1 acc where fp: "firstPass env m d allDevices (cli, [], False, []) = (cli1, acc)"
    by (cases "firstPass env m d allDevices (cli, [], False, [])") auto
  obtain ns inc rs where acc: "acc = (ns, inc, rs)"
    by (cases acc) auto
  from firstPass_fanoutEvents [OF fp]
  obtain new1 where n1: "trace cli1 = trace cli @ new1" "list_all isFanoutEvent new1"
    by blast
  obtain r w where f: "fetchPreKeys env (world cli1) rs = (r, w)"
    by (cases "fetchPreKeys env (world cli1) rs")
  show ?thesis
  proof (cases "rs \<noteq> [] \<and> (\<exists>bundles. r = Inr bundles)")
    case False
    with fp acc f have "trace (snd (encryptMessageForDevices env cli allDevices mid m d)) = trace cli1 \<or>
       trace (snd (encryptMessageForDevices env cli allDevices mid m d)) = trace cli1 @ [EvFetchPreKeys rs]"
      by (cases r) (auto simp: encryptMessageForDevices_def)
    with n1 have "trace (snd (encryptMessageForDevices env cli allDevices mid m d)) = trace cli @ new1
        \<and> list_all isFanoutEvent new1 \<or>
       trace (snd (encryptMessageForDevices env cli allDevices mid m d)) = trace cli @ (new1 @ [EvFetchPreKeys rs])
        \<and> list_all isFanoutEvent (new1 @ [EvFetchPreKeys rs])"
      by auto
    then show ?thesis by blast
  next
    case True
    then obtain bundles where r: "r = Inr bundles" and ne: "rs \<noteq> []" by blast
    obtain cli2 acc2 where rp:
      "retryPass env m d bundles rs (emit (EvFetchPreKeys rs) w cli1, ns, inc) = (cli2, acc2)"
      by (cases "retryPass env m d bundles rs (emit (EvFetchPreKeys rs) w cli1, ns, inc)") auto
    from retryPass_fanoutEvents [OF rp]
    obtain new2 where n2: "trace cli2 = trace cli1 @ [EvFetchPreKeys rs] @ new2" "list_all isFanoutEvent new2"
      by auto
    from fp acc f r ne rp have "snd (encryptMessageForDevices env cli allDevices mid m d) = cli2"
      by (cases acc2) (simp add: encryptMessageForDevices_def)
    with n1 n2 have "trace (snd (encryptMessageForDevices env cli allDevices mid m d)) =
        trace cli @ (new1 @ [EvFetchPreKeys rs] @ new2) \<and>
        list_all isFanoutEvent (new1 @ [EvFetchPreKeys rs] @ new2)"
      by simp
    then show ?thesis by blast
  qed
qed

lemma sentNodes_append [simp]: "sentNodes (xs @ ys) = sentNodes xs @ sentNodes ys"
  by (induction xs rule: sentNodes.induct) simp_all

lemma fanoutEvents_not_sent: "list_all isFanoutEvent tr \<Longrightarrow> sentNodes tr = []"
  by (induction tr rule: sentNodes.induct) simp_all

lemma GetUSyncDevices_events:
  "GetUSyncDevices env cli jids ign = (r, cli') \<Longrightarrow>
   \<exists>q w. cli' = emit (EvSendIQ q) w cli"
  by (auto simp: GetUSyncDevices_def Let_def split: prod.splits sum.splits if_splits)

lemma GetGroupInfo_events:
  "GetGroupInfo env cli j = (r, cli') \<Longrightarrow> \<exists>w. cli' = emit (EvSendIQ (groupInfoQuery j)) w cli"
  by (auto simp: GetGroupInfo_def Let_def split: prod.splits sum.splits option.splits)

section \<open>Device resolution: what is excluded\<close>

lemma deviceLoop_excludes:
  "d \<in> set (deviceLoop own ign j ns acc) \<Longrightarrow> d \<in> set acc \<or> (d \<noteq> own \<and> (ign \<longrightarrow> Device d \<noteq> 0))"
proof (induction ns arbitrary: acc)
  case Nil
  then show ?case by simp
next
  case (Cons n ns)
  show ?case
  proof (cases "GetInt64 n ''id''")
    case None
    with Cons.prems Cons.IH [of acc] show ?thesis by simp
  next
    case (Some v)
    let ?d = "NewADJID (User j) 0 (ucast v)"
    show ?thesis
    proof (cases "Tag n = ''device'' \<and> (0 < Device ?d \<or> \<not> ign) \<and> ?d \<noteq> own")
      case False
      with Some Cons.prems have "d \<in> set (deviceLoop own ign j ns acc)"
        by (auto simp: Let_def split: if_splits)
      from Cons.IH [OF this] show ?thesis .
    next
      case True
      with Some Cons.prems have "d \<in> set (deviceLoop own ign j ns (acc @ [?d]))"
        by (auto simp: Let_def split: if_splits)
      from Cons.IH [OF this] have "d \<in> set acc \<or> d = ?d \<or> (d \<noteq> own \<and> (ign \<longrightarrow> Device d \<noteq> 0))"
        by auto
      with True show ?thesis
        by (auto simp: word_greater_zero_iff)
    qed
  qed
qed

lemma userLoop_excludes:
  "d \<in> set (userLoop own ign us acc) \<Longrightarrow> d \<in> set acc \<or> (d \<noteq> own \<and> (ign \<longrightarrow> Device d \<noteq> 0))"
proof (induction us arbitrary: acc)
  case Nil
  then show ?case by simp
next
  case (Cons u us)
  from Cons.prems have "d \<in> set (userLoop own ign us acc) \<or>
    d \<in> set (userLoop own ign us (deviceLoop own ign (agJID u ''jid'')
           (GetChildren (GetChildByTag (GetChildByTag u ''devices'') ''device-list'')) acc))"
    by (auto simp: Let_def agJID_def split: option.splits attr.splits if_splits)
  then show ?case
  proof
    assume "d \<in> set (userLoop own ign us acc)"
    from Cons.IH [OF this] show ?thesis .
  next
    assume "d \<in> set (userLoop own ign us (deviceLoop own ign (agJID u ''jid'')
           (GetChildren (GetChildByTag (GetChildByTag u ''devices'') ''device-list'')) acc))"
    from Cons.IH [OF this] show ?thesis
      by (auto dest: deviceLoop_excludes)
  qed
qed

lemma deviceLoop_ignorePrimary:
  "deviceLoop own True j ns (filter (\<lambda>d. Device d \<noteq> 0) acc) =
   filter (\<lambda>d. Device d \<noteq> 0) (deviceLoop own False j ns acc)"
proof (induction ns arbitrary: acc)
  case Nil
  show ?case by simp
next
  case (Cons n ns)
  show ?case
  proof (cases "GetInt64 n ''id''")
    case None
    with Cons.IH [of acc] show ?thesis by simp
  next
    case (Some v)
    let ?d = "NewADJID (User j) 0 (ucast v)"
    show ?thesis
    proof (cases "Tag n = ''device'' \<and> ?d \<noteq> own")
      case False
      with Some Cons.IH [of acc] show ?thesis by (auto simp: Let_def)
    next
      case True
      with Some Cons.IH [of "acc @ [?d]"] Cons.IH [of acc] show ?thesis
        by (auto simp: Let_def word_greater_zero_iff)
    qed
  qed
qed

lemma userLoop_ignorePrimary:
  "userLoop own True us (filter (\<lambda>d. Device d \<noteq> 0) acc) =
   filter (\<lambda>d. Device d \<noteq> 0) (userLoop own False us acc)"
  by (induction us arbitrary: acc)
     (auto simp: Let_def deviceLoop_ignorePrimary split: option.splits attr.splits if_splits)


lemma GetUSyncDevices_result:
  "fst (GetUSyncDevices env cli jids ign) = Inr devs \<Longrightarrow>
   \<exists>us. (\<forall>ign'. fst (GetUSyncDevices env cli jids ign') = Inr (userLoop (SessionID cli) ign' us []))"
  by (auto simp: GetUSyncDevices_def Let_def split: prod.splits sum.splits if_splits)

lemma exUsync_run:
  "fst (GetUSyncDevices exEnv (exClient [] []) [alice, bob] False) = Inr [alice1, bob0]"
  by (simp add: GetUSyncDevices_def exEnv_def exClient_def exUsyncResponse_def exUserNode_def
      GetChildByTag_def GetOptionalChildByTag_def GetChildren_def GetInt64_def Let_def
      usyncQuery_def alice_def bob_def alice0_def alice1_def bob0_def NewADJID_def NewJID_def)

lemma deviceLoop_filter:
  "deviceLoop own ign j ns acc =
   acc @ filter (\<lambda>d. \<not> (ign \<and> Device d = 0) \<and> d \<noteq> own) (listedInList j ns)"
proof (induction ns arbitrary: acc)
  case Nil
  show ?case by simp
next
  case (Cons n ns)
  show ?case
  proof (cases "GetInt64 n ''id''")
    case None
    with Cons.IH [of acc] show ?thesis by simp
  next
    case (Some v)
    let ?d = "NewADJID (User j) 0 (ucast v)"
    show ?thesis
    proof (cases "Tag n = ''device''")
      case False
      with Some Cons.IH [of acc] show ?thesis by simp
    next
      case True
      with Some Cons.IH [of "acc @ [?d]"] Cons.IH [of acc] show ?thesis
        by (auto simp: Let_def word_greater_zero_iff)
    qed
  qed
qed

lemma userLoop_filter:
  "userLoop own ign us acc =
   acc @ filter (\<lambda>d. \<not> (ign \<and> Device d = 0) \<and> d \<noteq> own) (listedDevices us)"
proof (induction us arbitrary: acc)
  case Nil
  show ?case by simp
next
  case (Cons u us)
  show ?case
    by (auto simp: Let_def Cons.IH deviceLoop_filter split: option.splits attr.splits)
qed

lemma listedInList_form:
  "d \<in> set (listedInList j ns) \<Longrightarrow> d = NewADJID (User d) 0 (Device d)"
  by (induction ns) (auto simp: NewADJID_def split: option.splits if_splits)

lemma listedDevices_form:
  "d \<in> set (listedDevices us) \<Longrightarrow> d = NewADJID (User d) 0 (Device d)"
  by (induction us)
     (auto simp: Let_def dest: listedInList_form split: option.splits attr.splits if_splits)

lemma sameDevice_NewADJID:
  "d = NewADJID (User d) 0 (Device d) \<Longrightarrow> (d \<noteq> NewADJID u 0 dv \<longleftrightarrow> \<not> sameDevice d (NewADJID u 0 dv))"
  by (auto simp: sameDevice_def NewADJID_def)

lemma userLoop_is_reference:
  assumes "own = NewADJID u 0 dv"
  shows "userLoop own ign us [] = resolve_devices_spec own ign us"
proof -
  have "filter (\<lambda>d. \<not> (ign \<and> Device d = 0) \<and> d \<noteq> own) (listedDevices us) =
      filter (\<lambda>d. \<not> (ign \<and> Device d = 0) \<and> \<not> sameDevice d own) (listedDevices us)"
  proof (rule filter_cong [OF refl])
    fix d assume "d \<in> set (listedDevices us)"
    then have "d = NewADJID (User d) 0 (Device d)" by (rule listedDevices_form)
    from sameDevice_NewADJID [OF this, of u dv] assms
    show "(\<not> (ign \<and> Device d = 0) \<and> d \<noteq> own) = (\<not> (ign \<and> Device d = 0) \<and> \<not> sameDevice d own)"
      by simp
  qed
  then show ?thesis
    by (simp add: userLoop_filter resolve_devices_spec_def)
qed

lemma GetUSyncDevices_of_response:
  assumes "sendIQ env (snd (generateRequestID env (world cli)))
             (usyncQuery (fst (generateRequestID env (world cli))) jids) = (Inr res, w)"
    and "Tag (GetChildByTag res ''usync'') = ''usync''"
    and "Tag (GetChildByTag (GetChildByTag res ''usync'') ''list'') = ''list''"
  shows "fst (GetUSyncDevices env cli jids ign) =
     Inr (userLoop (SessionID cli) ign
            (GetChildren (GetChildByTag (GetChildByTag res ''usync'') ''list'')) [])"
  using assms by (cases "generateRequestID env (world cli)") (simp add: GetUSyncDevices_def Let_def)

text \<open>
  The comparison with the registered address is a comparison of all fields. A registered
  address that is not directory qualified is equal to no listed address, so with the
  registered address \<open>alice\<close> in place of \<open>alice0\<close> the answer of the example is returned
  whole.
\<close>

lemma exUsync_run_plain_registered_address:
  "fst (GetUSyncDevices exEnv ((exClient [] []) \<lparr>SessionID := alice\<rparr>) [alice, bob] False)
     = Inr [alice0, alice1, bob0]"
  by (simp add: GetUSyncDevices_def exEnv_def exClient_def exUsyncResponse_def exUserNode_def
      GetChildByTag_def GetOptionalChildByTag_def GetChildren_def GetInt64_def Let_def
      usyncQuery_def alice_def bob_def alice0_def alice1_def bob0_def NewADJID_def NewJID_def)

text \<open>
  Claim C7. No address that \<^verbatim>\<open>GetUSyncDevices\<close> returns is the sender's own registered
  address, and none has device index 0 when \<^verbatim>\<open>ignorePrimary\<close> is set; the result with
  \<^verbatim>\<open>ignorePrimary\<close> is the result without it, less the addresses with device index 0.
  For the users alice and bob, the directory answer alice: 0, 1 and bob: 0, and the
  sender alice's device 0, the result without \<^verbatim>\<open>ignorePrimary\<close> is alice/1, bob/0.

  The loops return the addresses that the directory answer lists, in order, less the
  primary devices when \<^verbatim>\<open>ignorePrimary\<close> is set and less the address that is equal to the
  registered one in every field. Every listed address is directory qualified, with agent
  0, on the default user server. So when the registered address has that form too, the
  result is the reference of the specification: no returned address has the user and the
  device index of the sender, and a listed address of another device is returned exactly
  when it is not a primary device or \<^verbatim>\<open>ignorePrimary\<close> is not set.
\<close>

theorem GetUSyncDevices_excludes_primary_and_self:
  "(fst (GetUSyncDevices env cli jids ign) = Inr devs \<longrightarrow>
      (\<forall>d \<in> set devs. d \<noteq> SessionID cli \<and> (ign \<longrightarrow> Device d \<noteq> 0))) \<and>
   (fst (GetUSyncDevices env cli jids False) = Inr devs \<longrightarrow>
      fst (GetUSyncDevices env cli jids True) = Inr (filter (\<lambda>d. Device d \<noteq> 0) devs)) \<and>
   fst (GetUSyncDevices exEnv (exClient [] []) [alice, bob] False) = Inr [alice1, bob0] \<and>
   userLoop own ign us [] =
     filter (\<lambda>d. \<not> (ign \<and> Device d = 0) \<and> d \<noteq> own) (listedDevices us) \<and>
   (\<forall>d \<in> set (listedDevices us). d = NewADJID (User d) 0 (Device d)) \<and>
   (own = NewADJID u 0 dv \<longrightarrow> userLoop own ign us [] = resolve_devices_spec own ign us) \<and>
   (d \<in> set (resolve_devices_spec own ign us) \<longleftrightarrow>
      d \<in> set (listedDevices us) \<and> (Device d = 0 \<longrightarrow> \<not> ign) \<and> \<not> sameDevice d own) \<and>
   (SessionID cli = NewADJID u 0 dv \<and> fst (GetUSyncDevices env cli jids ign) = Inr devs \<longrightarrow>
      (\<forall>d \<in> set devs. \<not> sameDevice d (SessionID cli) \<and> d = NewADJID (User d) 0 (Device d))) \<and>
   (SessionID cli = NewADJID u 0 dv \<and>
    sendIQ env (snd (generateRequestID env (world cli)))
      (usyncQuery (fst (generateRequestID env (world cli))) jids) = (Inr res, w) \<and>
    Tag (GetChildByTag res ''usync'') = ''usync'' \<and>
    Tag (GetChildByTag (GetChildByTag res ''usync'') ''list'') = ''list'' \<longrightarrow>
      fst (GetUSyncDevices env cli jids ign) =
        Inr (resolve_devices_spec (SessionID cli) ign
               (GetChildren (GetChildByTag (GetChildByTag res ''usync'') ''list''))))"
proof -
  have 1: "fst (GetUSyncDevices env cli jids ign) = Inr devs \<longrightarrow>
      (\<forall>d \<in> set devs. d \<noteq> SessionID cli \<and> (ign \<longrightarrow> Device d \<noteq> 0))"
  proof (intro impI ballI)
    fix d
    assume r: "fst (GetUSyncDevices env cli jids ign) = Inr devs" and d: "d \<in> set devs"
    from GetUSyncDevices_result [OF r] obtain vs where
      "fst (GetUSyncDevices env cli jids ign) = Inr (userLoop (SessionID cli) ign vs [])"
      by blast
    with r d have "d \<in> set (userLoop (SessionID cli) ign vs [])" by simp
    from userLoop_excludes [OF this] show "d \<noteq> SessionID cli \<and> (ign \<longrightarrow> Device d \<noteq> 0)"
      by simp
  qed
  have 2: "fst (GetUSyncDevices env cli jids False) = Inr devs \<longrightarrow>
      fst (GetUSyncDevices env cli jids True) = Inr (filter (\<lambda>d. Device d \<noteq> 0) devs)"
  proof
    assume r: "fst (GetUSyncDevices env cli jids False) = Inr devs"
    from GetUSyncDevices_result [OF r] obtain vs where
      u: "\<forall>ign'. fst (GetUSyncDevices env cli jids ign') = Inr (userLoop (SessionID cli) ign' vs [])"
      by blast
    with r have "devs = userLoop (SessionID cli) False vs []" by simp
    with u userLoop_ignorePrimary [of "SessionID cli" vs "[]"]
    show "fst (GetUSyncDevices env cli jids True) = Inr (filter (\<lambda>d. Device d \<noteq> 0) devs)"
      by simp
  qed
  have 3: "fst (GetUSyncDevices exEnv (exClient [] []) [alice, bob] False) = Inr [alice1, bob0]"
    by (rule exUsync_run)
  have 4: "userLoop own ign us [] =
     filter (\<lambda>d. \<not> (ign \<and> Device d = 0) \<and> d \<noteq> own) (listedDevices us)"
    by (simp add: userLoop_filter)
  have 5: "\<forall>d \<in> set (listedDevices us). d = NewADJID (User d) 0 (Device d)"
    by (rule ballI) (rule listedDevices_form)
  have 6: "own = NewADJID u 0 dv \<longrightarrow> userLoop own ign us [] = resolve_devices_spec own ign us"
    by (rule impI) (rule userLoop_is_reference)
  have 7: "d \<in> set (resolve_devices_spec own ign us) \<longleftrightarrow>
      d \<in> set (listedDevices us) \<and> (Device d = 0 \<longrightarrow> \<not> ign) \<and> \<not> sameDevice d own"
    by (auto simp: resolve_devices_spec_def)
  have 8: "SessionID cli = NewADJID u 0 dv \<and> fst (GetUSyncDevices env cli jids ign) = Inr devs \<longrightarrow>
      (\<forall>d \<in> set devs. \<not> sameDevice d (SessionID cli) \<and> d = NewADJID (User d) 0 (Device d))"
  proof (intro impI ballI)
    fix d
    assume a: "SessionID cli = NewADJID u 0 dv \<and> fst (GetUSyncDevices env cli jids ign) = Inr devs"
      and d: "d \<in> set devs"
    from a have o: "SessionID cli = NewADJID u 0 dv"
      and r: "fst (GetUSyncDevices env cli jids ign) = Inr devs" by simp_all
    from GetUSyncDevices_result [OF r] obtain vs where
      "fst (GetUSyncDevices env cli jids ign) = Inr (userLoop (SessionID cli) ign vs [])"
      by blast
    with r d have "d \<in> set (userLoop (SessionID cli) ign vs [])" by simp
    then have m: "d \<in> set (resolve_devices_spec (SessionID cli) ign vs)"
      by (simp add: userLoop_is_reference [OF o])
    then have "d \<in> set (listedDevices vs)" and n: "\<not> sameDevice d (SessionID cli)"
      by (simp_all add: resolve_devices_spec_def)
    from listedDevices_form [OF this(1)] n
    show "\<not> sameDevice d (SessionID cli) \<and> d = NewADJID (User d) 0 (Device d)"
      by (rule_tac conjI)
  qed
  have 9: "SessionID cli = NewADJID u 0 dv \<and>
    sendIQ env (snd (generateRequestID env (world cli)))
      (usyncQuery (fst (generateRequestID env (world cli))) jids) = (Inr res, w) \<and>
    Tag (GetChildByTag res ''usync'') = ''usync'' \<and>
    Tag (GetChildByTag (GetChildByTag res ''usync'') ''list'') = ''list'' \<longrightarrow>
      fst (GetUSyncDevices env cli jids ign) =
        Inr (resolve_devices_spec (SessionID cli) ign
               (GetChildren (GetChildByTag (GetChildByTag res ''usync'') ''list'')))"
  proof
    assume a: "SessionID cli = NewADJID u 0 dv \<and>
      sendIQ env (snd (generateRequestID env (world cli)))
        (usyncQuery (fst (generateRequestID env (world cli))) jids) = (Inr res, w) \<and>
      Tag (GetChildByTag res ''usync'') = ''usync'' \<and>
      Tag (GetChildByTag (GetChildByTag res ''usync'') ''list'') = ''list''"
    then have o: "SessionID cli = NewADJID u 0 dv"
      and s: "sendIQ env (snd (generateRequestID env (world cli)))
        (usyncQuery (fst (generateRequestID env (world cli))) jids) = (Inr res, w)"
      and t1: "Tag (GetChildByTag res ''usync'') = ''usync''"
      and t2: "Tag (GetChildByTag (GetChildByTag res ''usync'') ''list'') = ''list''"
      by simp_all
    from GetUSyncDevices_of_response [OF s t1 t2, of ign] userLoop_is_reference [OF o]
    show "fst (GetUSyncDevices env cli jids ign) =
        Inr (resolve_devices_spec (SessionID cli) ign
               (GetChildren (GetChildByTag (GetChildByTag res ''usync'') ''list'')))"
      by simp
  qed
  show ?thesis
    apply (intro conjI)
            apply (rule 1)
           apply (rule 2)
          apply (rule 3)
         apply (rule 4)
        apply (rule 5)
       apply (rule 6)
      apply (rule 7)
     apply (rule 8)
    apply (rule 9)
    done
qed

lemma exUsync_response:
  "sendIQ exEnv (snd (generateRequestID exEnv (world (exClient [] []))))
      (usyncQuery (fst (generateRequestID exEnv (world (exClient [] [])))) [alice, bob])
     = (Inr exUsyncResponse, world (exClient [] [])) \<and>
   Tag (GetChildByTag exUsyncResponse ''usync'') = ''usync'' \<and>
   Tag (GetChildByTag (GetChildByTag exUsyncResponse ''usync'') ''list'') = ''list'' \<and>
   listedDevices (GetChildren (GetChildByTag (GetChildByTag exUsyncResponse ''usync'') ''list''))
     = [alice0, alice1, bob0]"
  by (simp add: exEnv_def exClient_def exUsyncResponse_def exUserNode_def usyncQuery_def
      GetChildByTag_def GetOptionalChildByTag_def GetChildren_def GetInt64_def Let_def
      alice_def bob_def alice0_def alice1_def bob0_def NewADJID_def NewJID_def)

theorem GetUSyncDevices_excludes_primary_and_self_witness:
  "fst (GetUSyncDevices exEnv (exClient [] []) [alice, bob] False) = Inr [alice1, bob0] \<and>
   alice1 \<noteq> SessionID (exClient [] []) \<and> bob0 \<noteq> SessionID (exClient [] []) \<and>
   fst (GetUSyncDevices exEnv (exClient [] []) [alice, bob] True) = Inr [alice1] \<and>
   Device alice1 \<noteq> 0 \<and>
   SessionID (exClient [] []) = NewADJID ''alice'' 0 0 \<and>
   \<not> sameDevice alice1 (SessionID (exClient [] [])) \<and>
   \<not> sameDevice bob0 (SessionID (exClient [] [])) \<and>
   sendIQ exEnv (snd (generateRequestID exEnv (world (exClient [] []))))
      (usyncQuery (fst (generateRequestID exEnv (world (exClient [] [])))) [alice, bob])
     = (Inr exUsyncResponse, world (exClient [] [])) \<and>
   Tag (GetChildByTag exUsyncResponse ''usync'') = ''usync'' \<and>
   Tag (GetChildByTag (GetChildByTag exUsyncResponse ''usync'') ''list'') = ''list'' \<and>
   listedDevices (GetChildren (GetChildByTag (GetChildByTag exUsyncResponse ''usync'') ''list''))
     = [alice0, alice1, bob0] \<and>
   resolve_devices_spec (SessionID (exClient [] [])) False
      (GetChildren (GetChildByTag (GetChildByTag exUsyncResponse ''usync'') ''list'')) = [alice1, bob0] \<and>
   resolve_devices_spec (SessionID (exClient [] [])) True
      (GetChildren (GetChildByTag (GetChildByTag exUsyncResponse ''usync'') ''list'')) = [alice1] \<and>
   bob0 \<in> set (listedDevices (GetChildren (GetChildByTag (GetChildByTag exUsyncResponse ''usync'') ''list''))) \<and>
   Device bob0 = 0 \<and>
   bob0 \<in> set (resolve_devices_spec (SessionID (exClient [] [])) False
      (GetChildren (GetChildByTag (GetChildByTag exUsyncResponse ''usync'') ''list''))) \<and>
   bob0 \<notin> set (resolve_devices_spec (SessionID (exClient [] [])) True
      (GetChildren (GetChildByTag (GetChildByTag exUsyncResponse ''usync'') ''list'')))"
proof -
  let ?c = "exClient [] []"
  let ?us = "GetChildren (GetChildByTag (GetChildByTag exUsyncResponse ''usync'') ''list'')"
  note T = GetUSyncDevices_excludes_primary_and_self
    [where env = exEnv and cli = ?c and jids = "[alice, bob]" and u = "''alice''" and dv = 0
       and res = exUsyncResponse and w = "world ?c" and own = "SessionID ?c" and us = ?us]
  have r: "fst (GetUSyncDevices exEnv ?c [alice, bob] False) = Inr [alice1, bob0]"
    by (rule T [THEN conjunct2, THEN conjunct2, THEN conjunct1])
  have f: "filter (\<lambda>d. Device d \<noteq> 0) [alice1, bob0] = [alice1]"
    by (simp add: alice1_def bob0_def NewADJID_def)
  have o: "SessionID ?c = NewADJID ''alice'' 0 0"
    by (simp add: exClient_def alice0_def)
  have b0: "Device bob0 = 0"
    by (simp add: bob0_def NewADJID_def)
  note e = exUsync_response
  have e1: "sendIQ exEnv (snd (generateRequestID exEnv (world ?c)))
      (usyncQuery (fst (generateRequestID exEnv (world ?c))) [alice, bob])
     = (Inr exUsyncResponse, world ?c)"
    by (rule e [THEN conjunct1])
  have e2: "Tag (GetChildByTag exUsyncResponse ''usync'') = ''usync''"
    by (rule e [THEN conjunct2, THEN conjunct1])
  have e3: "Tag (GetChildByTag (GetChildByTag exUsyncResponse ''usync'') ''list'') = ''list''"
    by (rule e [THEN conjunct2, THEN conjunct2, THEN conjunct1])
  have e4: "listedDevices ?us = [alice0, alice1, bob0]"
    by (rule e [THEN conjunct2, THEN conjunct2, THEN conjunct2])
  note c1 = T [where ign = False and devs = "[alice1, bob0]", THEN conjunct1, rule_format, OF r]
  have 1: "alice1 \<noteq> SessionID ?c"
    using c1 [of alice1] by simp
  have 2: "bob0 \<noteq> SessionID ?c"
    using c1 [of bob0] by simp
  have "fst (GetUSyncDevices exEnv ?c [alice, bob] True) = Inr (filter (\<lambda>d. Device d \<noteq> 0) [alice1, bob0])"
    by (rule T [where devs = "[alice1, bob0]", THEN conjunct2, THEN conjunct1, rule_format, OF r])
  then have t1: "fst (GetUSyncDevices exEnv ?c [alice, bob] True) = Inr [alice1]"
    by (simp only: f)
  note c1t = T [where ign = True and devs = "[alice1]", THEN conjunct1, rule_format, OF t1]
  have 3: "Device alice1 \<noteq> 0"
    using c1t [of alice1] by simp
  note c8 = T [where ign = False and devs = "[alice1, bob0]",
      THEN conjunct2, THEN conjunct2, THEN conjunct2, THEN conjunct2, THEN conjunct2,
      THEN conjunct2, THEN conjunct2, THEN conjunct1, rule_format, OF conjI [OF o r]]
  have 4: "\<not> sameDevice alice1 (SessionID ?c)"
    using c8 [of alice1] by simp
  have 5: "\<not> sameDevice bob0 (SessionID ?c)"
    using c8 [of bob0] by simp
  note c9F = T [where ign = False, THEN conjunct2, THEN conjunct2, THEN conjunct2, THEN conjunct2,
      THEN conjunct2, THEN conjunct2, THEN conjunct2, THEN conjunct2, rule_format,
      OF conjI [OF o conjI [OF e1 conjI [OF e2 e3]]]]
  note c9T = T [where ign = True, THEN conjunct2, THEN conjunct2, THEN conjunct2, THEN conjunct2,
      THEN conjunct2, THEN conjunct2, THEN conjunct2, THEN conjunct2, rule_format,
      OF conjI [OF o conjI [OF e1 conjI [OF e2 e3]]]]
  have 6: "resolve_devices_spec (SessionID ?c) False ?us = [alice1, bob0]"
    using c9F r by simp
  have 7: "resolve_devices_spec (SessionID ?c) True ?us = [alice1]"
    using c9T t1 by simp
  have 8: "bob0 \<in> set (listedDevices ?us)"
    by (simp only: e4) simp
  note c7F = T [where d = bob0 and ign = False, THEN conjunct2, THEN conjunct2, THEN conjunct2,
      THEN conjunct2, THEN conjunct2, THEN conjunct2, THEN conjunct1]
  note c7T = T [where d = bob0 and ign = True, THEN conjunct2, THEN conjunct2, THEN conjunct2,
      THEN conjunct2, THEN conjunct2, THEN conjunct2, THEN conjunct1]
  have 9: "bob0 \<in> set (resolve_devices_spec (SessionID ?c) False ?us)"
    using c7F 8 5 by blast
  have 10: "bob0 \<notin> set (resolve_devices_spec (SessionID ?c) True ?us)"
    using c7T b0 by blast
  show ?thesis
    apply (intro conjI)
                     apply (rule r)
                    apply (rule 1)
                   apply (rule 2)
                  apply (rule t1)
                 apply (rule 3)
                apply (rule o)
               apply (rule 4)
              apply (rule 5)
             apply (rule e1)
            apply (rule e2)
           apply (rule e3)
          apply (rule e4)
         apply (rule 6)
        apply (rule 7)
       apply (rule 8)
      apply (rule b0)
     apply (rule 9)
    apply (rule 10)
    done
qed

section \<open>The send paths: what reaches the transport\<close>

lemma newEvents_emit [simp]: "newEvents cli (emit e w cli) = [e]"
  by (simp add: newEvents_def)

lemma newEvents_same [simp]: "newEvents cli cli = []"
  by (simp add: newEvents_def)

lemma newEvents_trans:
  "trace cli1 = trace cli @ new1 \<Longrightarrow> trace cli2 = trace cli1 @ new2 \<Longrightarrow>
   newEvents cli cli2 = new1 @ newEvents cli1 cli2"
  by (simp add: newEvents_def)

lemma attachAndSend_sent:
  "sentNodes (newEvents cli (snd (attachAndSend env cli inc n))) =
     (if inc then
        (case Marshal env PAccount of
           Inl e \<Rightarrow> []
         | Inr bs \<Rightarrow> [Node (Tag n) (Attrs n)
                        (Children (GetChildren n @ [Node ''device-identity'' Map.empty (Bytes bs)]))])
      else [n])"
  by (auto simp: attachAndSend_def appendDeviceIdentityNode_def split: sum.splits prod.splits option.splits)

lemma attachAndSend_trace:
  "\<exists>new. trace (snd (attachAndSend env cli inc n)) = trace cli @ new"
  by (auto simp: attachAndSend_def split: sum.splits prod.splits option.splits)

lemma attachAndSend_result:
  "fst (attachAndSend env cli inc n) =
     (if inc then
        (case Marshal env PAccount of
           Inl e \<Rightarrow> Some (Wrapf ''failed to marshal device identity'' (External e))
         | Inr bs \<Rightarrow>
             map_option (Wrapf ''failed to send message node'')
               (fst (sendNode env (world cli)
                  (Node (Tag n) (Attrs n)
                     (Children (GetChildren n @ [Node ''device-identity'' Map.empty (Bytes bs)]))))))
      else map_option (Wrapf ''failed to send message node'') (fst (sendNode env (world cli) n)))"
  by (auto simp: attachAndSend_def appendDeviceIdentityNode_def split: sum.splits prod.splits option.splits)

lemma quiet_refl [simp]: "quiet cli cli"
  by (simp add: quiet_def)

lemma quiet_trans: "quiet a b \<Longrightarrow> quiet b c \<Longrightarrow> quiet a c"
  by (auto simp: quiet_def)

lemma quiet_emit_IQ [simp]: "quiet cli (emit (EvSendIQ q) w cli)"
  and quiet_emit_create [simp]: "quiet cli (emit (EvGroupCreate k) w cli)"
  and quiet_emit_gencrypt [simp]: "quiet cli (emit (EvGroupEncrypt k p) w cli)"
  by (simp_all add: quiet_def)

lemma quiet_newEvents: "quiet cli cli' \<Longrightarrow> sentNodes (newEvents cli cli') = []"
  by (auto simp: quiet_def newEvents_def)

lemma quiet_then:
  "quiet cli cli1 \<Longrightarrow> \<exists>new. trace cli2 = trace cli1 @ new \<Longrightarrow>
   sentNodes (newEvents cli cli2) = sentNodes (newEvents cli1 cli2)"
  by (auto simp: quiet_def newEvents_def)

lemma fanout_quiet:
  "encryptMessageForDevices env cli devs mid m d = (r, cli') \<Longrightarrow> quiet cli cli'"
  using encryptMessageForDevices_fanoutEvents [of env cli devs mid m d]
  by (auto simp: quiet_def fanoutEvents_not_sent)

lemma GetUSyncDevices_quiet:
  "GetUSyncDevices env cli jids ign = (r, cli') \<Longrightarrow> quiet cli cli'"
  by (auto dest: GetUSyncDevices_events)

lemma GetGroupInfo_quiet:
  "GetGroupInfo env cli j = (r, cli') \<Longrightarrow> quiet cli cli'"
  by (auto dest: GetGroupInfo_events)

lemma sendDM_prepare_quiet: "quiet cli (snd (sendDM_prepare env cli to msg))"
  unfolding sendDM_prepare_def
  by (auto split: sum.splits prod.splits intro: GetUSyncDevices_quiet)

lemma sendDM_fanout_quiet: "quiet cli (snd (sendDM_fanout env cli to mid msg))"
proof -
  obtain r c where p: "sendDM_prepare env cli to msg = (r, c)"
    by (cases "sendDM_prepare env cli to msg")
  with sendDM_prepare_quiet [of cli env to msg] have q: "quiet cli c" by simp
  from p q show ?thesis
    unfolding sendDM_fanout_def
    by (auto split: sum.splits prod.splits intro: quiet_trans [OF _ fanout_quiet])
qed

lemma sendGroup_prepare_quiet: "quiet cli (snd (sendGroup_prepare env cli to msg))"
proof -
  have emits: "quiet cli c1 \<Longrightarrow> quiet cli (emit (EvGroupEncrypt k p) w4 (emit (EvGroupCreate k) w2 c1))"
    for c1 k p w4 w2
    by (blast intro: quiet_trans quiet_emit_create quiet_emit_gencrypt)
  show ?thesis
    unfolding sendGroup_prepare_def
    by (auto simp: Let_def split: sum.splits prod.splits
        intro: GetGroupInfo_quiet quiet_trans [OF GetGroupInfo_quiet quiet_emit_create]
          emits [OF GetGroupInfo_quiet]
          quiet_trans [OF emits [OF GetGroupInfo_quiet] GetUSyncDevices_quiet])
qed

lemma sendGroup_fanout_quiet: "quiet cli (snd (sendGroup_fanout env cli to mid msg))"
proof -
  obtain r c where p: "sendGroup_prepare env cli to msg = (r, c)"
    by (cases "sendGroup_prepare env cli to msg")
  with sendGroup_prepare_quiet [of cli env to msg] have q: "quiet cli c" by simp
  from p q show ?thesis
    unfolding sendGroup_fanout_def
    by (auto split: sum.splits prod.splits intro: quiet_trans [OF _ fanout_quiet])
qed

lemma sendDM_sent:
  "sentNodes (newEvents cli (snd (sendDM env cli to mid msg))) =
     (case sendDM_fanout env cli to mid msg of
        (Inl e, cli1) \<Rightarrow> []
      | (Inr (nodes, inc), cli2) \<Rightarrow>
          sentNodes (newEvents cli2 (snd (attachAndSend env cli2 inc (directNode to mid nodes)))))"
proof -
  obtain r c where f: "sendDM_fanout env cli to mid msg = (r, c)"
    by (cases "sendDM_fanout env cli to mid msg")
  with sendDM_fanout_quiet [of cli env to mid msg] have q: "quiet cli c" by simp
  show ?thesis
  proof (cases r)
    case (Inl e)
    with f q show ?thesis by (simp add: sendDM_def quiet_newEvents)
  next
    case (Inr p)
    obtain nodes inc where p: "p = (nodes, inc)" by (cases p)
    from quiet_then [OF q attachAndSend_trace [of env c inc "directNode to mid nodes"]] f Inr p
    show ?thesis by (simp add: sendDM_def)
  qed
qed

lemma sendGroup_sent:
  "sentNodes (newEvents cli (snd (sendGroup env cli to mid msg))) =
     (case sendGroup_fanout env cli to mid msg of
        (Inl e, cli1) \<Rightarrow> []
      | (Inr (info, ciphertext, nodes, inc), cli6) \<Rightarrow>
          sentNodes (newEvents cli6 (snd (attachAndSend env cli6 inc
            (groupNode to mid
               (participantListHashV2 env (map (\<lambda>p. String env (FullJID p)) (Participants info)))
               nodes ciphertext)))))"
proof -
  obtain r c where f: "sendGroup_fanout env cli to mid msg = (r, c)"
    by (cases "sendGroup_fanout env cli to mid msg")
  with sendGroup_fanout_quiet [of cli env to mid msg] have q: "quiet cli c" by simp
  show ?thesis
  proof (cases r)
    case (Inl e)
    with f q show ?thesis by (simp add: sendGroup_def quiet_newEvents)
  next
    case (Inr p)
    obtain info ct nodes inc where p: "p = (info, ct, nodes, inc)" by (cases p)
    from quiet_then [OF q attachAndSend_trace [of env c inc
        "groupNode to mid (participantListHashV2 env (map (\<lambda>p. String env (FullJID p)) (Participants info))) nodes ct"]]
      f Inr p
    show ?thesis by (simp add: sendGroup_def)
  qed
qed


section \<open>The assembled node: identity, hash and sender-key entry\<close>

lemma identityChildren_directNode [simp]: "identityChildren (directNode to mid nodes) = []"
  by (simp add: identityChildren_def directNode_def GetChildren_def)

lemma identityChildren_groupNode [simp]: "identityChildren (groupNode to mid h nodes ct) = []"
  by (simp add: identityChildren_def groupNode_def GetChildren_def)

lemma identityChildren_appended:
  "identityChildren (Node t a (Children (GetChildren n @ [Node ''device-identity'' Map.empty (Bytes bs)])))
     = identityChildren n @ [Node ''device-identity'' Map.empty (Bytes bs)]"
  by (simp add: identityChildren_def GetChildren_def)

lemma attachAndSend_identity:
  assumes "identityChildren n = []"
  shows "(\<forall>n' \<in> set (sentNodes (newEvents cli (snd (attachAndSend env cli inc n)))).
            length (identityChildren n') = (if inc then 1 else 0)) \<and>
         ((inc \<longrightarrow> (\<exists>bs. Marshal env PAccount = Inr bs)) \<longrightarrow>
            length (sentNodes (newEvents cli (snd (attachAndSend env cli inc n)))) = 1)"
  using assms
  by (auto simp: attachAndSend_sent identityChildren_appended split: sum.splits)

text \<open>
  Claim C5. In both send paths, every node handed to the transport has exactly one
  \<^verbatim>\<open>device-identity\<close> child when the fanout returned \<^verbatim>\<open>includeIdentity = true\<close>, and
  none when it returned false; and exactly one node is handed over, unless the identity
  is needed and cannot be marshalled.
\<close>

theorem identity_child_iff_includeIdentity:
  "(sendDM_fanout env cli to mid msg = (Inr (nodes, inc), cli2) \<longrightarrow>
      (\<forall>n \<in> set (sentNodes (newEvents cli (snd (sendDM env cli to mid msg)))).
          length (identityChildren n) = (if inc then 1 else 0)) \<and>
      ((inc \<longrightarrow> (\<exists>bs. Marshal env PAccount = Inr bs)) \<longrightarrow>
          length (sentNodes (newEvents cli (snd (sendDM env cli to mid msg)))) = 1)) \<and>
   (sendGroup_fanout env cli to mid msg = (Inr (info, ct, nodes, inc), cli2) \<longrightarrow>
      (\<forall>n \<in> set (sentNodes (newEvents cli (snd (sendGroup env cli to mid msg)))).
          length (identityChildren n) = (if inc then 1 else 0)) \<and>
      ((inc \<longrightarrow> (\<exists>bs. Marshal env PAccount = Inr bs)) \<longrightarrow>
          length (sentNodes (newEvents cli (snd (sendGroup env cli to mid msg)))) = 1))"
proof (intro conjI impI)
  assume f: "sendDM_fanout env cli to mid msg = (Inr (nodes, inc), cli2)"
  have s: "sentNodes (newEvents cli (snd (sendDM env cli to mid msg))) =
      sentNodes (newEvents cli2 (snd (attachAndSend env cli2 inc (directNode to mid nodes))))"
    by (simp add: sendDM_sent f)
  from attachAndSend_identity [OF identityChildren_directNode, of cli2 env inc to mid nodes] s
  show "\<forall>n \<in> set (sentNodes (newEvents cli (snd (sendDM env cli to mid msg)))).
          length (identityChildren n) = (if inc then 1 else 0)"
    by simp
  assume "inc \<longrightarrow> (\<exists>bs. Marshal env PAccount = Inr bs)"
  with attachAndSend_identity [OF identityChildren_directNode, of cli2 env inc to mid nodes] s
  show "length (sentNodes (newEvents cli (snd (sendDM env cli to mid msg)))) = 1"
    by simp
next
  assume f: "sendGroup_fanout env cli to mid msg = (Inr (info, ct, nodes, inc), cli2)"
  let ?n = "groupNode to mid (participantListHashV2 env (map (\<lambda>p. String env (FullJID p)) (Participants info)))
      nodes ct"
  have s: "sentNodes (newEvents cli (snd (sendGroup env cli to mid msg))) =
      sentNodes (newEvents cli2 (snd (attachAndSend env cli2 inc ?n)))"
    by (simp add: sendGroup_sent f)
  from attachAndSend_identity [OF identityChildren_groupNode, of cli2 env inc] s
  show "\<forall>n \<in> set (sentNodes (newEvents cli (snd (sendGroup env cli to mid msg)))).
          length (identityChildren n) = (if inc then 1 else 0)"
    by simp
  assume "inc \<longrightarrow> (\<exists>bs. Marshal env PAccount = Inr bs)"
  with attachAndSend_identity [OF identityChildren_groupNode, of cli2 env inc] s
  show "length (sentNodes (newEvents cli (snd (sendGroup env cli to mid msg)))) = 1"
    by simp
qed

text \<open>Unfolding the example environment and the operations, for concrete runs.\<close>

lemmas ex_defs = exEnv_def exClient_def exUsyncResponse_def exUserNode_def exGroupResponse_def
  alice_def bob_def grp_def alice0_def alice1_def bob0_def NewADJID_def NewJID_def
  GroupServer_def DefaultUserServer_def ServerJID_def

lemmas run_defs = sendDM_fanout_def sendGroup_fanout_def sendDM_prepare_def sendGroup_prepare_def
  marshalMessage_def GetUSyncDevices_def
  GetGroupInfo_def usyncQuery_def groupInfoQuery_def encryptMessageForDevices_def
  encryptMessageForDevice_def choosePlaintext_def lookupResp_def
  GetChildByTag_def GetOptionalChildByTag_def GetChildren_def GetInt64_def agJID_def agString_def
  agInt64_def PREKEY_TYPE_def Let_def

lemma exDM_first_contact:
  "map_sum id snd (fst (sendDM_fanout exEnv (exClient [] []) bob ''id1'' (WaMessage 0))) = Inr True"
  by (simp add: run_defs ex_defs)

lemma exDM_established:
  "map_sum id snd (fst (sendDM_fanout exEnv
      (exClient [SignalAddress exEnv bob0, SignalAddress exEnv alice1] []) bob ''id1'' (WaMessage 0))) = Inr False"
  by (simp add: run_defs ex_defs)

lemma exGroup_first_contact:
  "map_sum id (\<lambda>r. snd (snd (snd r))) (fst (sendGroup_fanout exEnv (exClient [] []) grp ''id1'' (WaMessage 0))) = Inr True"
  by (simp add: run_defs ex_defs)


theorem identity_child_iff_includeIdentity_witness:
  "(\<exists>nodes c. sendDM_fanout exEnv (exClient [] []) bob ''id1'' (WaMessage 0) = (Inr (nodes, True), c)) \<and>
   (\<exists>n. sentNodes (newEvents (exClient [] []) (snd (sendDM exEnv (exClient [] []) bob ''id1'' (WaMessage 0)))) = [n]
        \<and> length (identityChildren n) = 1) \<and>
   (\<exists>nodes c. sendDM_fanout exEnv (exClient [SignalAddress exEnv bob0, SignalAddress exEnv alice1] [])
        bob ''id1'' (WaMessage 0) = (Inr (nodes, False), c)) \<and>
   (\<exists>n. sentNodes (newEvents (exClient [SignalAddress exEnv bob0, SignalAddress exEnv alice1] [])
          (snd (sendDM exEnv (exClient [SignalAddress exEnv bob0, SignalAddress exEnv alice1] [])
             bob ''id1'' (WaMessage 0)))) = [n]
        \<and> length (identityChildren n) = 0) \<and>
   (\<exists>info ct nodes c. sendGroup_fanout exEnv (exClient [] []) grp ''id1'' (WaMessage 0)
        = (Inr (info, ct, nodes, True), c)) \<and>
   (\<exists>n. sentNodes (newEvents (exClient [] []) (snd (sendGroup exEnv (exClient [] []) grp ''id1'' (WaMessage 0)))) = [n]
        \<and> length (identityChildren n) = 1)"
proof -
  have m: "\<exists>bs. Marshal exEnv PAccount = Inr bs"
    by (simp add: exEnv_def)
  let ?c0 = "exClient [] []"
  let ?c1 = "exClient [SignalAddress exEnv bob0, SignalAddress exEnv alice1] []"
  obtain nodes1 c1 where f1: "sendDM_fanout exEnv ?c0 bob ''id1'' (WaMessage 0) = (Inr (nodes1, True), c1)"
    using exDM_first_contact
    by (cases "sendDM_fanout exEnv ?c0 bob ''id1'' (WaMessage 0)") (auto simp: map_sum_def split: sum.splits)
  obtain nodes2 c2 where f2: "sendDM_fanout exEnv ?c1 bob ''id1'' (WaMessage 0) = (Inr (nodes2, False), c2)"
    using exDM_established
    by (cases "sendDM_fanout exEnv ?c1 bob ''id1'' (WaMessage 0)") (auto simp: map_sum_def split: sum.splits)
  obtain info ct nodes3 c3 where
    f3: "sendGroup_fanout exEnv ?c0 grp ''id1'' (WaMessage 0) = (Inr (info, ct, nodes3, True), c3)"
    using exGroup_first_contact
    by (cases "sendGroup_fanout exEnv ?c0 grp ''id1'' (WaMessage 0)") (auto simp: map_sum_def split: sum.splits)
  have one: "length xs = 1 \<Longrightarrow> \<forall>n \<in> set xs. length (identityChildren n) = k \<Longrightarrow>
      \<exists>n. xs = [n] \<and> length (identityChildren n) = k" for xs :: "node list" and k
    by (cases xs) auto
  from identity_child_iff_includeIdentity [where env = exEnv and cli = ?c0 and to = bob and mid = "''id1''"
      and msg = "WaMessage 0" and nodes = nodes1 and inc = True and ?cli2.0 = c1] f1 m
  have w1: "\<exists>n. sentNodes (newEvents ?c0 (snd (sendDM exEnv ?c0 bob ''id1'' (WaMessage 0)))) = [n]
        \<and> length (identityChildren n) = 1"
    by (intro one) simp_all
  from identity_child_iff_includeIdentity [where env = exEnv and cli = ?c1 and to = bob and mid = "''id1''"
      and msg = "WaMessage 0" and nodes = nodes2 and inc = False and ?cli2.0 = c2] f2
  have w2: "\<exists>n. sentNodes (newEvents ?c1 (snd (sendDM exEnv ?c1 bob ''id1'' (WaMessage 0)))) = [n]
        \<and> length (identityChildren n) = 0"
    by (intro one) simp_all
  from identity_child_iff_includeIdentity [where env = exEnv and cli = ?c0 and to = grp and mid = "''id1''"
      and msg = "WaMessage 0" and nodes = nodes3 and inc = True and ?cli2.0 = c3 and info = info and ct = ct] f3 m
  have w3: "\<exists>n. sentNodes (newEvents ?c0 (snd (sendGroup exEnv ?c0 grp ''id1'' (WaMessage 0)))) = [n]
        \<and> length (identityChildren n) = 1"
    by (intro one) simp_all
  from f1 f2 f3 w1 w2 w3 show ?thesis by blast
qed

lemma senderKeyEntries_directNode [simp]: "senderKeyEntries (directNode to mid nodes) = []"
  by (simp add: senderKeyEntries_def directNode_def GetChildren_def)

lemma senderKeyEntries_groupNode [simp]: "length (senderKeyEntries (groupNode to mid h nodes ct)) = 1"
  by (simp add: senderKeyEntries_def groupNode_def GetChildren_def)

lemma senderKeyEntries_groupNode_content:
  "map Content (senderKeyEntries (groupNode to mid h nodes ct)) = [Bytes ct]"
  by (simp add: senderKeyEntries_def groupNode_def GetChildren_def)

lemma senderKeyEntries_appended [simp]:
  "senderKeyEntries (Node t a (Children (GetChildren n @ [Node ''device-identity'' Map.empty (Bytes bs)])))
     = senderKeyEntries n"
  by (simp add: senderKeyEntries_def GetChildren_def)

lemma phash_groupNode: "Attrs (groupNode to mid h nodes ct) ''phash'' = Some (AString h)"
  by (simp add: groupNode_def)

lemma phash_directNode: "Attrs (directNode to mid nodes) ''phash'' = None"
  by (simp add: directNode_def)

lemma attachAndSend_keeps:
  "n' \<in> set (sentNodes (newEvents cli (snd (attachAndSend env cli inc n)))) \<Longrightarrow>
   Attrs n' = Attrs n \<and> senderKeyEntries n' = senderKeyEntries n \<and> Tag n' = Tag n"
  by (auto simp: attachAndSend_sent split: if_splits sum.splits)

text \<open>
  Claim C9. Every node that \<^verbatim>\<open>sendGroup\<close> hands to the transport has a \<^verbatim>\<open>phash\<close>
  attribute and exactly one child \<^verbatim>\<open>enc\<close> of type \<^verbatim>\<open>skmsg\<close>, whose content is the group
  ciphertext; every node that \<^verbatim>\<open>sendDM\<close> hands to the transport has no \<^verbatim>\<open>phash\<close>
  attribute and no such child.
\<close>

theorem group_node_has_phash_and_skmsg_direct_node_neither:
  "(\<forall>n \<in> set (sentNodes (newEvents cli (snd (sendGroup env cli to mid msg)))).
       (\<exists>h. Attrs n ''phash'' = Some (AString h)) \<and> length (senderKeyEntries n) = 1) \<and>
   (sendGroup_fanout env cli to mid msg = (Inr (info, ct, nodes, inc), c) \<longrightarrow>
      (\<forall>n \<in> set (sentNodes (newEvents cli (snd (sendGroup env cli to mid msg)))).
          map Content (senderKeyEntries n) = [Bytes ct])) \<and>
   (\<forall>n \<in> set (sentNodes (newEvents cli (snd (sendDM env cli to mid msg)))).
       Attrs n ''phash'' = None \<and> senderKeyEntries n = [])"
proof -
  have g: "(\<exists>h. Attrs n ''phash'' = Some (AString h)) \<and> length (senderKeyEntries n) = 1"
    if "n \<in> set (sentNodes (newEvents cli (snd (sendGroup env cli to mid msg))))" for n
  proof -
    from that obtain info :: groupInfo and ct nodes inc c where
      "n \<in> set (sentNodes (newEvents c (snd (attachAndSend env c inc
          (groupNode to mid (participantListHashV2 env (map (\<lambda>p. String env (FullJID p)) (Participants info)))
             nodes ct)))))"
      by (auto simp: sendGroup_sent split: prod.splits sum.splits)
    from attachAndSend_keeps [OF this] show ?thesis
      by (simp add: phash_groupNode)
  qed
  have k: "map Content (senderKeyEntries n) = [Bytes ct]"
    if f: "sendGroup_fanout env cli to mid msg = (Inr (info, ct, nodes, inc), c)"
      and n: "n \<in> set (sentNodes (newEvents cli (snd (sendGroup env cli to mid msg))))" for n
  proof -
    from f n have
      "n \<in> set (sentNodes (newEvents c (snd (attachAndSend env c inc
          (groupNode to mid (participantListHashV2 env (map (\<lambda>p. String env (FullJID p)) (Participants info)))
             nodes ct)))))"
      by (simp add: sendGroup_sent)
    from attachAndSend_keeps [OF this] show ?thesis
      by (simp add: senderKeyEntries_groupNode_content)
  qed
  have d: "Attrs n ''phash'' = None \<and> senderKeyEntries n = []"
    if "n \<in> set (sentNodes (newEvents cli (snd (sendDM env cli to mid msg))))" for n
  proof -
    from that obtain nodes inc c where
      "n \<in> set (sentNodes (newEvents c (snd (attachAndSend env c inc (directNode to mid nodes)))))"
      by (auto simp: sendDM_sent split: prod.splits sum.splits)
    from attachAndSend_keeps [OF this] show ?thesis
      by (simp add: phash_directNode)
  qed
  from g k d show ?thesis by blast
qed

lemma sendDM_sent_one:
  assumes "sendDM_fanout env cli to mid msg = (Inr (nodes, inc), c)"
    and "inc \<longrightarrow> (\<exists>bs. Marshal env PAccount = Inr bs)"
  shows "length (sentNodes (newEvents cli (snd (sendDM env cli to mid msg)))) = 1"
  using assms attachAndSend_identity [OF identityChildren_directNode, of c env inc to mid nodes]
  by (simp add: sendDM_sent)

lemma sendGroup_sent_one:
  assumes "sendGroup_fanout env cli to mid msg = (Inr (info, ct, nodes, inc), c)"
    and "inc \<longrightarrow> (\<exists>bs. Marshal env PAccount = Inr bs)"
  shows "length (sentNodes (newEvents cli (snd (sendGroup env cli to mid msg)))) = 1"
  using assms attachAndSend_identity [OF identityChildren_groupNode, of c env inc]
  by (simp add: sendGroup_sent)

lemma exDM_sent_one:
  "length (sentNodes (newEvents (exClient [] []) (snd (sendDM exEnv (exClient [] []) bob ''id1'' (WaMessage 0))))) = 1"
proof -
  obtain nodes c where "sendDM_fanout exEnv (exClient [] []) bob ''id1'' (WaMessage 0) = (Inr (nodes, True), c)"
    using exDM_first_contact
    by (cases "sendDM_fanout exEnv (exClient [] []) bob ''id1'' (WaMessage 0)")
       (auto simp: map_sum_def split: sum.splits)
  then show ?thesis
    by (rule sendDM_sent_one) (simp add: exEnv_def)
qed

lemma exGroup_sent_one:
  "length (sentNodes (newEvents (exClient [] []) (snd (sendGroup exEnv (exClient [] []) grp ''id1'' (WaMessage 0))))) = 1"
proof -
  obtain info ct nodes c where
    "sendGroup_fanout exEnv (exClient [] []) grp ''id1'' (WaMessage 0) = (Inr (info, ct, nodes, True), c)"
    using exGroup_first_contact
    by (cases "sendGroup_fanout exEnv (exClient [] []) grp ''id1'' (WaMessage 0)")
       (auto simp: map_sum_def split: sum.splits)
  then show ?thesis
    by (rule sendGroup_sent_one) (simp add: exEnv_def)
qed

theorem group_node_has_phash_and_skmsg_direct_node_neither_witness:
  "(\<exists>n info ct nodes c.
        sendGroup_fanout exEnv (exClient [] []) grp ''id1'' (WaMessage 0) = (Inr (info, ct, nodes, True), c) \<and>
        sentNodes (newEvents (exClient [] []) (snd (sendGroup exEnv (exClient [] []) grp ''id1'' (WaMessage 0)))) = [n] \<and>
        (\<exists>h. Attrs n ''phash'' = Some (AString h)) \<and> length (senderKeyEntries n) = 1 \<and>
        map Content (senderKeyEntries n) = [Bytes ct]) \<and>
   (\<exists>n. sentNodes (newEvents (exClient [] []) (snd (sendDM exEnv (exClient [] []) bob ''id1'' (WaMessage 0)))) = [n] \<and>
        Attrs n ''phash'' = None \<and> senderKeyEntries n = [])"
proof -
  obtain info ct nodes c where
    f: "sendGroup_fanout exEnv (exClient [] []) grp ''id1'' (WaMessage 0) = (Inr (info, ct, nodes, True), c)"
    using exGroup_first_contact
    by (cases "sendGroup_fanout exEnv (exClient [] []) grp ''id1'' (WaMessage 0)")
       (auto simp: map_sum_def split: sum.splits)
  obtain g where g: "sentNodes (newEvents (exClient [] [])
      (snd (sendGroup exEnv (exClient [] []) grp ''id1'' (WaMessage 0)))) = [g]"
    using exGroup_sent_one by (auto simp: length_Suc_conv)
  obtain d where d: "sentNodes (newEvents (exClient [] [])
      (snd (sendDM exEnv (exClient [] []) bob ''id1'' (WaMessage 0)))) = [d]"
    using exDM_sent_one by (auto simp: length_Suc_conv)
  from group_node_has_phash_and_skmsg_direct_node_neither
    [where cli = "exClient [] []" and env = exEnv and to = grp and mid = "''id1''" and msg = "WaMessage 0"
       and info = info and ct = ct and nodes = nodes and inc = True and c = c] g f
  have pg: "(\<exists>h. Attrs g ''phash'' = Some (AString h)) \<and> length (senderKeyEntries g) = 1 \<and>
      map Content (senderKeyEntries g) = [Bytes ct]"
    by simp
  from group_node_has_phash_and_skmsg_direct_node_neither
    [where cli = "exClient [] []" and env = exEnv and to = bob and mid = "''id1''" and msg = "WaMessage 0"] d
  have pd: "Attrs d ''phash'' = None \<and> senderKeyEntries d = []"
    by simp
  show ?thesis
  proof (rule conjI)
    from f g pg show "\<exists>n info ct nodes c.
        sendGroup_fanout exEnv (exClient [] []) grp ''id1'' (WaMessage 0) = (Inr (info, ct, nodes, True), c) \<and>
        sentNodes (newEvents (exClient [] []) (snd (sendGroup exEnv (exClient [] []) grp ''id1'' (WaMessage 0)))) = [n] \<and>
        (\<exists>h. Attrs n ''phash'' = Some (AString h)) \<and> length (senderKeyEntries n) = 1 \<and>
        map Content (senderKeyEntries n) = [Bytes ct]"
      by (intro exI [of _ g] exI [of _ info] exI [of _ ct] exI [of _ nodes] exI [of _ c]) simp
    from d pd show "\<exists>n. sentNodes (newEvents (exClient [] [])
          (snd (sendDM exEnv (exClient [] []) bob ''id1'' (WaMessage 0)))) = [n] \<and>
        Attrs n ''phash'' = None \<and> senderKeyEntries n = []"
      by (intro exI [of _ d]) simp
  qed
qed

section \<open>A failed prekey fetch\<close>

lemma fanout_fetch_fails:
  assumes "firstPass env m d devs (cli, [], False, []) = (cli1, ns, inc, rs)" "rs \<noteq> []"
    "fetchPreKeys env (world cli1) rs = (Inl e, w)"
  shows "encryptMessageForDevices env cli devs mid m d = ((ns, inc), emit (EvFetchPreKeys rs) w cli1)"
  using assms by (simp add: encryptMessageForDevices_def)

lemma sendDM_after_prepare:
  assumes "sendDM_prepare env cli0 to msg = (Inr (m, d, devs), cli)"
    "encryptMessageForDevices env cli devs mid m d = ((ns, inc), c2)"
  shows "sendDM env cli0 to mid msg = attachAndSend env c2 inc (directNode to mid ns)"
    and "sendDM_fanout env cli0 to mid msg = (Inr (ns, inc), c2)"
  using assms by (simp_all add: sendDM_def sendDM_fanout_def)

lemma sendGroup_after_prepare:
  assumes "sendGroup_prepare env cli0 to msg = (Inr (info, ct, m, devs), cli)"
    "encryptMessageForDevices env cli devs mid m None = ((ns, inc), c2)"
  shows "sendGroup env cli0 to mid msg = attachAndSend env c2 inc
      (groupNode to mid (participantListHashV2 env (map (\<lambda>p. String env (FullJID p)) (Participants info))) ns ct)"
    and "sendGroup_fanout env cli0 to mid msg = (Inr (info, ct, ns, inc), c2)"
  using assms by (simp_all add: sendGroup_def sendGroup_fanout_def)

text \<open>
  Claim C10. When some device was deferred and the one call of \<^verbatim>\<open>fetchPreKeys\<close> fails as a
  whole, the fanout returns the envelopes and the flag of the first pass and does nothing
  more for the deferred devices; \<^verbatim>\<open>sendDM\<close> and \<^verbatim>\<open>sendGroup\<close> go on with these results:
  what they return is what the identity attachment and the transport return, and one
  node is handed to the transport unless the identity is needed and cannot be marshalled.
\<close>

theorem fetch_failure_keeps_first_pass_and_send_proceeds:
  "(firstPass env m d devs (cli, [], False, []) = (cli1, ns, inc, rs) \<and> rs \<noteq> [] \<and>
    fetchPreKeys env (world cli1) rs = (Inl e, w) \<longrightarrow>
      encryptMessageForDevices env cli devs mid m d = ((ns, inc), emit (EvFetchPreKeys rs) w cli1) \<and>
      newEvents cli1 (snd (encryptMessageForDevices env cli devs mid m d)) = [EvFetchPreKeys rs] \<and>
      (sendDM_prepare env cli0 to msg = (Inr (m, d, devs), cli) \<longrightarrow>
         sendDM env cli0 to mid msg =
           attachAndSend env (emit (EvFetchPreKeys rs) w cli1) inc (directNode to mid ns) \<and>
         ((inc \<longrightarrow> (\<exists>bs. Marshal env PAccount = Inr bs)) \<longrightarrow>
            length (sentNodes (newEvents cli0 (snd (sendDM env cli0 to mid msg)))) = 1)) \<and>
      (sendGroup_prepare env cli0 to msg = (Inr (info, ct, m, devs), cli) \<and> d = None \<longrightarrow>
         sendGroup env cli0 to mid msg =
           attachAndSend env (emit (EvFetchPreKeys rs) w cli1) inc
             (groupNode to mid
                (participantListHashV2 env (map (\<lambda>p. String env (FullJID p)) (Participants info))) ns ct) \<and>
         ((inc \<longrightarrow> (\<exists>bs. Marshal env PAccount = Inr bs)) \<longrightarrow>
            length (sentNodes (newEvents cli0 (snd (sendGroup env cli0 to mid msg)))) = 1)))"
proof (intro impI)
  assume h: "firstPass env m d devs (cli, [], False, []) = (cli1, ns, inc, rs) \<and> rs \<noteq> [] \<and>
    fetchPreKeys env (world cli1) rs = (Inl e, w)"
  then have f: "encryptMessageForDevices env cli devs mid m d = ((ns, inc), emit (EvFetchPreKeys rs) w cli1)"
    by (simp add: fanout_fetch_fails)
  have ev: "newEvents cli1 (snd (encryptMessageForDevices env cli devs mid m d)) = [EvFetchPreKeys rs]"
    by (simp add: f)
  have dm: "sendDM env cli0 to mid msg =
           attachAndSend env (emit (EvFetchPreKeys rs) w cli1) inc (directNode to mid ns) \<and>
         ((inc \<longrightarrow> (\<exists>bs. Marshal env PAccount = Inr bs)) \<longrightarrow>
            length (sentNodes (newEvents cli0 (snd (sendDM env cli0 to mid msg)))) = 1)"
    if p: "sendDM_prepare env cli0 to msg = (Inr (m, d, devs), cli)"
    using sendDM_after_prepare [OF p f] sendDM_sent_one [of env cli0 to mid msg ns inc]
    by simp
  have gr: "sendGroup env cli0 to mid msg =
           attachAndSend env (emit (EvFetchPreKeys rs) w cli1) inc
             (groupNode to mid
                (participantListHashV2 env (map (\<lambda>p. String env (FullJID p)) (Participants info))) ns ct) \<and>
         ((inc \<longrightarrow> (\<exists>bs. Marshal env PAccount = Inr bs)) \<longrightarrow>
            length (sentNodes (newEvents cli0 (snd (sendGroup env cli0 to mid msg)))) = 1)"
    if p: "sendGroup_prepare env cli0 to msg = (Inr (info, ct, m, devs), cli)" and d: "d = None"
    using sendGroup_after_prepare [OF p f [unfolded d]] sendGroup_sent_one [of env cli0 to mid msg info ct ns inc]
    by simp
  from f ev dm gr show "encryptMessageForDevices env cli devs mid m d = ((ns, inc), emit (EvFetchPreKeys rs) w cli1) \<and>
      newEvents cli1 (snd (encryptMessageForDevices env cli devs mid m d)) = [EvFetchPreKeys rs] \<and>
      (sendDM_prepare env cli0 to msg = (Inr (m, d, devs), cli) \<longrightarrow>
         sendDM env cli0 to mid msg =
           attachAndSend env (emit (EvFetchPreKeys rs) w cli1) inc (directNode to mid ns) \<and>
         ((inc \<longrightarrow> (\<exists>bs. Marshal env PAccount = Inr bs)) \<longrightarrow>
            length (sentNodes (newEvents cli0 (snd (sendDM env cli0 to mid msg)))) = 1)) \<and>
      (sendGroup_prepare env cli0 to msg = (Inr (info, ct, m, devs), cli) \<and> d = None \<longrightarrow>
         sendGroup env cli0 to mid msg =
           attachAndSend env (emit (EvFetchPreKeys rs) w cli1) inc
             (groupNode to mid
                (participantListHashV2 env (map (\<lambda>p. String env (FullJID p)) (Participants info))) ns ct) \<and>
         ((inc \<longrightarrow> (\<exists>bs. Marshal env PAccount = Inr bs)) \<longrightarrow>
            length (sentNodes (newEvents cli0 (snd (sendGroup env cli0 to mid msg)))) = 1))"
    by blast
qed


lemmas exVariant_defs = exEnvFetchFails_def exEnvMarshalFails_def exEnvEncryptFails_def exEnvIQFails_def
  exEnvUsyncFails_def exEnvelope_def

lemma exFirstPass_bob_session:
  "firstPass exEnvFetchFails m d [alice1, bob0]
      (\<lparr>SessionID = alice0, world = \<lparr>sessions = [SignalAddress exEnv bob0], pending = []\<rparr>, trace = T\<rparr>,
       [], False, [])
   = (\<lparr>SessionID = alice0, world = \<lparr>sessions = [SignalAddress exEnv bob0], pending = []\<rparr>,
        trace = T @ [EvEncrypt bob0 (m @ [1])]\<rparr>,
      [exEnvelope bob0 ''msg'' (m @ [1])], False, [alice1])"
  by (simp add: run_defs ex_defs exVariant_defs emit_def split: option.splits)

lemma exPrepareDM_FetchFails:
  "sendDM_prepare exEnvFetchFails (exClient [SignalAddress exEnv bob0] []) bob (WaMessage 0) =
     (Inr ([1], Some [3], [alice1, bob0]),
      \<lparr>SessionID = alice0, world = \<lparr>sessions = [SignalAddress exEnv bob0], pending = []\<rparr>,
       trace = [EvSendIQ (usyncQuery ''1'' [bob, alice0])]\<rparr>)"
  by (simp add: run_defs ex_defs exVariant_defs emit_def)

lemma exPrepareGroup_FetchFails:
  "map_sum id (\<lambda>(info, ct, m, devs). (ct, m, devs))
     (fst (sendGroup_prepare exEnvFetchFails (exClient [SignalAddress exEnv bob0] []) grp (WaMessage 0)))
     = Inr ([1, 1], [2], [alice1, bob0]) \<and>
   world (snd (sendGroup_prepare exEnvFetchFails (exClient [SignalAddress exEnv bob0] []) grp (WaMessage 0)))
     = \<lparr>sessions = [SignalAddress exEnv bob0], pending = []\<rparr> \<and>
   SessionID (snd (sendGroup_prepare exEnvFetchFails (exClient [SignalAddress exEnv bob0] []) grp (WaMessage 0)))
     = alice0"
  by (simp add: run_defs ex_defs exVariant_defs emit_def)


theorem fetch_failure_keeps_first_pass_and_send_proceeds_witness:
  "(\<exists>cli cli1 w.
      sendDM_prepare exEnvFetchFails (exClient [SignalAddress exEnv bob0] []) bob (WaMessage 0)
        = (Inr ([1], Some [3], [alice1, bob0]), cli) \<and>
      firstPass exEnvFetchFails [1] (Some [3]) [alice1, bob0] (cli, [], False, [])
        = (cli1, [exEnvelope bob0 ''msg'' [1, 1]], False, [alice1]) \<and>
      [alice1] \<noteq> [] \<and>
      fetchPreKeys exEnvFetchFails (world cli1) [alice1] = (Inl (Errorf ''prekey request timed out''), w) \<and>
      encryptMessageForDevices exEnvFetchFails cli [alice1, bob0] ''id1'' [1] (Some [3])
        = (([exEnvelope bob0 ''msg'' [1, 1]], False), emit (EvFetchPreKeys [alice1]) w cli1) \<and>
      newEvents cli1 (snd (encryptMessageForDevices exEnvFetchFails cli [alice1, bob0] ''id1'' [1] (Some [3])))
        = [EvFetchPreKeys [alice1]] \<and>
      length (sentNodes (newEvents (exClient [SignalAddress exEnv bob0] [])
        (snd (sendDM exEnvFetchFails (exClient [SignalAddress exEnv bob0] []) bob ''id1'' (WaMessage 0))))) = 1 \<and>
      fst (sendDM exEnvFetchFails (exClient [SignalAddress exEnv bob0] []) bob ''id1'' (WaMessage 0)) = None) \<and>
   (\<exists>info cli cli1 w.
      sendGroup_prepare exEnvFetchFails (exClient [SignalAddress exEnv bob0] []) grp (WaMessage 0)
        = (Inr (info, [1, 1], [2], [alice1, bob0]), cli) \<and>
      firstPass exEnvFetchFails [2] None [alice1, bob0] (cli, [], False, [])
        = (cli1, [exEnvelope bob0 ''msg'' [2, 1]], False, [alice1]) \<and>
      fetchPreKeys exEnvFetchFails (world cli1) [alice1] = (Inl (Errorf ''prekey request timed out''), w) \<and>
      length (sentNodes (newEvents (exClient [SignalAddress exEnv bob0] [])
        (snd (sendGroup exEnvFetchFails (exClient [SignalAddress exEnv bob0] []) grp ''id1'' (WaMessage 0))))) = 1 \<and>
      fst (sendGroup exEnvFetchFails (exClient [SignalAddress exEnv bob0] []) grp ''id1'' (WaMessage 0)) = None)"
proof (rule conjI)
  let ?c0 = "exClient [SignalAddress exEnv bob0] []"
  let ?W = "\<lparr>sessions = [SignalAddress exEnv bob0], pending = []\<rparr>"
  let ?e = "Errorf ''prekey request timed out''"
  have fetch: "fetchPreKeys exEnvFetchFails w js = (Inl ?e, w)" for w js
    by (simp add: exEnvFetchFails_def)
  have send: "fst (sendNode exEnvFetchFails w n) = None" for w n
    by (simp add: exEnvFetchFails_def exEnv_def)
  let ?cli = "\<lparr>SessionID = alice0, world = ?W, trace = [EvSendIQ (usyncQuery ''1'' [bob, alice0])]\<rparr>"
  let ?cli1 = "\<lparr>SessionID = alice0, world = ?W,
      trace = [EvSendIQ (usyncQuery ''1'' [bob, alice0])] @ [EvEncrypt bob0 ([1] @ [1])]\<rparr>"
  have p: "sendDM_prepare exEnvFetchFails ?c0 bob (WaMessage 0) = (Inr ([1], Some [3], [alice1, bob0]), ?cli)"
    by (rule exPrepareDM_FetchFails)
  have fp: "firstPass exEnvFetchFails [1] (Some [3]) [alice1, bob0] (?cli, [], False, [])
        = (?cli1, [exEnvelope bob0 ''msg'' [1, 1]], False, [alice1])"
    using exFirstPass_bob_session [of "[1]" "Some [3]" "[EvSendIQ (usyncQuery ''1'' [bob, alice0])]"] by simp
  have ne: "[alice1] \<noteq> []" by simp
  have f: "fetchPreKeys exEnvFetchFails (world ?cli1) [alice1] = (Inl ?e, ?W)"
    by (simp add: fetch)
  note t = fetch_failure_keeps_first_pass_and_send_proceeds
    [where env = exEnvFetchFails and m = "[1]" and d = "Some [3]" and devs = "[alice1, bob0]" and cli = ?cli
       and ?cli1.0 = ?cli1 and ns = "[exEnvelope bob0 ''msg'' [1, 1]]" and inc = False and rs = "[alice1]"
       and e = ?e and w = ?W and ?cli0.0 = ?c0 and to = bob and msg = "WaMessage 0" and mid = "''id1''"]
  from t fp ne f
  have r1: "encryptMessageForDevices exEnvFetchFails ?cli [alice1, bob0] ''id1'' [1] (Some [3])
        = (([exEnvelope bob0 ''msg'' [1, 1]], False), emit (EvFetchPreKeys [alice1]) ?W ?cli1)"
    and r2: "newEvents ?cli1 (snd (encryptMessageForDevices exEnvFetchFails ?cli [alice1, bob0] ''id1'' [1] (Some [3])))
        = [EvFetchPreKeys [alice1]]"
    by blast+
  from t fp ne f p
  have r3: "sendDM exEnvFetchFails ?c0 bob ''id1'' (WaMessage 0) =
      attachAndSend exEnvFetchFails (emit (EvFetchPreKeys [alice1]) ?W ?cli1) False
        (directNode bob ''id1'' [exEnvelope bob0 ''msg'' [1, 1]])"
    and r4: "length (sentNodes (newEvents ?c0 (snd (sendDM exEnvFetchFails ?c0 bob ''id1'' (WaMessage 0))))) = 1"
    by blast+
  from r3 have r5: "fst (sendDM exEnvFetchFails ?c0 bob ''id1'' (WaMessage 0)) = None"
    by (simp add: attachAndSend_result send)
  from p fp ne f r1 r2 r4 r5
  show "\<exists>cli cli1 w.
      sendDM_prepare exEnvFetchFails ?c0 bob (WaMessage 0) = (Inr ([1], Some [3], [alice1, bob0]), cli) \<and>
      firstPass exEnvFetchFails [1] (Some [3]) [alice1, bob0] (cli, [], False, [])
        = (cli1, [exEnvelope bob0 ''msg'' [1, 1]], False, [alice1]) \<and>
      [alice1] \<noteq> [] \<and>
      fetchPreKeys exEnvFetchFails (world cli1) [alice1] = (Inl ?e, w) \<and>
      encryptMessageForDevices exEnvFetchFails cli [alice1, bob0] ''id1'' [1] (Some [3])
        = (([exEnvelope bob0 ''msg'' [1, 1]], False), emit (EvFetchPreKeys [alice1]) w cli1) \<and>
      newEvents cli1 (snd (encryptMessageForDevices exEnvFetchFails cli [alice1, bob0] ''id1'' [1] (Some [3])))
        = [EvFetchPreKeys [alice1]] \<and>
      length (sentNodes (newEvents ?c0 (snd (sendDM exEnvFetchFails ?c0 bob ''id1'' (WaMessage 0))))) = 1 \<and>
      fst (sendDM exEnvFetchFails ?c0 bob ''id1'' (WaMessage 0)) = None"
    by (intro exI [of _ ?cli] exI [of _ ?cli1] exI [of _ ?W] conjI)
next
  let ?c0 = "exClient [SignalAddress exEnv bob0] []"
  let ?W = "\<lparr>sessions = [SignalAddress exEnv bob0], pending = []\<rparr>"
  let ?e = "Errorf ''prekey request timed out''"
  have send: "fst (sendNode exEnvFetchFails w n) = None" for w n
    by (simp add: exEnvFetchFails_def exEnv_def)
  obtain r cli where pr: "sendGroup_prepare exEnvFetchFails ?c0 grp (WaMessage 0) = (r, cli)"
    by (cases "sendGroup_prepare exEnvFetchFails ?c0 grp (WaMessage 0)")
  with exPrepareGroup_FetchFails obtain info where r: "r = Inr (info, [1, 1], [2], [alice1, bob0])"
    and c: "world cli = ?W" "SessionID cli = alice0"
    by (cases r) (auto simp: map_sum_def split: sum.splits)
  from c have cli: "cli = \<lparr>SessionID = alice0, world = ?W, trace = trace cli\<rparr>"
    by (cases cli) simp
  let ?cli1 = "\<lparr>SessionID = alice0, world = ?W, trace = trace cli @ [EvEncrypt bob0 ([2] @ [1])]\<rparr>"
  have p: "sendGroup_prepare exEnvFetchFails ?c0 grp (WaMessage 0) = (Inr (info, [1, 1], [2], [alice1, bob0]), cli)"
    using pr r by simp
  have fp: "firstPass exEnvFetchFails [2] None [alice1, bob0] (cli, [], False, [])
        = (?cli1, [exEnvelope bob0 ''msg'' [2, 1]], False, [alice1])"
    using exFirstPass_bob_session [of "[2]" None "trace cli"] cli by simp
  have ne: "[alice1] \<noteq> []" by simp
  have f: "fetchPreKeys exEnvFetchFails (world ?cli1) [alice1] = (Inl ?e, ?W)"
    by (simp add: exEnvFetchFails_def)
  note t = fetch_failure_keeps_first_pass_and_send_proceeds
    [where env = exEnvFetchFails and m = "[2]" and d = None and devs = "[alice1, bob0]" and cli = cli
       and ?cli1.0 = ?cli1 and ns = "[exEnvelope bob0 ''msg'' [2, 1]]" and inc = False and rs = "[alice1]"
       and e = ?e and w = ?W and ?cli0.0 = ?c0 and to = grp and msg = "WaMessage 0" and mid = "''id1''"
       and info = info and ct = "[1, 1]"]
  from t fp ne f p
  have r3: "sendGroup exEnvFetchFails ?c0 grp ''id1'' (WaMessage 0) =
      attachAndSend exEnvFetchFails (emit (EvFetchPreKeys [alice1]) ?W ?cli1) False
        (groupNode grp ''id1''
           (participantListHashV2 exEnvFetchFails (map (\<lambda>p. String exEnvFetchFails (FullJID p)) (Participants info)))
           [exEnvelope bob0 ''msg'' [2, 1]] [1, 1])"
    and r4: "length (sentNodes (newEvents ?c0 (snd (sendGroup exEnvFetchFails ?c0 grp ''id1'' (WaMessage 0))))) = 1"
    by blast+
  from r3 have r5: "fst (sendGroup exEnvFetchFails ?c0 grp ''id1'' (WaMessage 0)) = None"
    by (simp add: attachAndSend_result send)
  from p fp f r4 r5
  show "\<exists>info cli cli1 w.
      sendGroup_prepare exEnvFetchFails ?c0 grp (WaMessage 0) = (Inr (info, [1, 1], [2], [alice1, bob0]), cli) \<and>
      firstPass exEnvFetchFails [2] None [alice1, bob0] (cli, [], False, [])
        = (cli1, [exEnvelope bob0 ''msg'' [2, 1]], False, [alice1]) \<and>
      fetchPreKeys exEnvFetchFails (world cli1) [alice1] = (Inl ?e, w) \<and>
      length (sentNodes (newEvents ?c0 (snd (sendGroup exEnvFetchFails ?c0 grp ''id1'' (WaMessage 0))))) = 1 \<and>
      fst (sendGroup exEnvFetchFails ?c0 grp ''id1'' (WaMessage 0)) = None"
    by (intro exI [of _ info] exI [of _ cli] exI [of _ ?cli1] exI [of _ ?W] conjI)
qed

section \<open>A failed marshalling\<close>

lemma marshalMessage_self_copy:
  "marshalMessage env to msg = Inr (m, d) \<Longrightarrow> (d \<noteq> None \<longleftrightarrow> Server to \<noteq> GroupServer)"
  by (auto simp: marshalMessage_def split: sum.splits if_splits)

lemma sendDM_marshal_fails:
  "marshalMessage env to msg = Inl e \<Longrightarrow> sendDM env cli to mid msg = (Some e, cli)"
  by (simp add: sendDM_def sendDM_fanout_def sendDM_prepare_def)

lemma sendGroup_marshal_fails:
  assumes "marshalMessage env to msg = Inl e" "fst (GetGroupInfo env cli to) = Inr info"
  shows "fst (sendGroup env cli to mid msg) = Some e"
    and "newEvents cli (snd (sendGroup env cli to mid msg)) = [EvSendIQ (groupInfoQuery to)]"
proof -
  obtain r c where g: "GetGroupInfo env cli to = (r, c)"
    by (cases "GetGroupInfo env cli to")
  from GetGroupInfo_events [OF g] obtain w where c: "c = emit (EvSendIQ (groupInfoQuery to)) w cli"
    by blast
  from g assms have s: "sendGroup env cli to mid msg = (Some e, c)"
    by (simp add: sendGroup_def sendGroup_fanout_def sendGroup_prepare_def)
  from s show "fst (sendGroup env cli to mid msg) = Some e" by simp
  from s c show "newEvents cli (snd (sendGroup env cli to mid msg)) = [EvSendIQ (groupInfoQuery to)]"
    by simp
qed

text \<open>
  Claim C8, as the code has it. \<^verbatim>\<open>marshalMessage\<close> gives the copy for the sender's own
  devices exactly for a destination that is not a group. When marshalling fails,
  \<^verbatim>\<open>sendDM\<close> returns the error with no call of any collaborator; \<^verbatim>\<open>sendGroup\<close>, which asks
  for the group information first, returns the error after that one request and with no
  other call: nothing is encrypted, fetched or sent.
\<close>

theorem marshal_failure_aborts_before_encryption:
  "(marshalMessage env to msg = Inr (m, d) \<longrightarrow> (d \<noteq> None \<longleftrightarrow> Server to \<noteq> GroupServer)) \<and>
   (marshalMessage env to msg = Inl e \<longrightarrow>
      sendDM env cli to mid msg = (Some e, cli) \<and>
      newEvents cli (snd (sendDM env cli to mid msg)) = []) \<and>
   (marshalMessage env to msg = Inl e \<and> fst (GetGroupInfo env cli to) = Inr info \<longrightarrow>
      fst (sendGroup env cli to mid msg) = Some e \<and>
      newEvents cli (snd (sendGroup env cli to mid msg)) = [EvSendIQ (groupInfoQuery to)] \<and>
      filter isEncryption (newEvents cli (snd (sendGroup env cli to mid msg))) = [])"
proof (intro conjI impI)
  show "d \<noteq> None \<longleftrightarrow> Server to \<noteq> GroupServer" if "marshalMessage env to msg = Inr (m, d)"
    using that by (rule marshalMessage_self_copy)
  show "sendDM env cli to mid msg = (Some e, cli)" if "marshalMessage env to msg = Inl e"
    using that by (rule sendDM_marshal_fails)
  show "newEvents cli (snd (sendDM env cli to mid msg)) = []" if "marshalMessage env to msg = Inl e"
    using that by (simp add: sendDM_marshal_fails)
next
  assume h: "marshalMessage env to msg = Inl e \<and> fst (GetGroupInfo env cli to) = Inr info"
  then show "fst (sendGroup env cli to mid msg) = Some e"
    by (simp add: sendGroup_marshal_fails)
  from h show ev: "newEvents cli (snd (sendGroup env cli to mid msg)) = [EvSendIQ (groupInfoQuery to)]"
    by (simp add: sendGroup_marshal_fails)
  show "filter isEncryption (newEvents cli (snd (sendGroup env cli to mid msg))) = []"
    by (simp add: ev)
qed

lemma exGroupInfo_ok:
  "\<exists>info. fst (GetGroupInfo exEnvMarshalFails (exClient [] []) grp) = Inr info"
  by (simp add: run_defs ex_defs exVariant_defs)

lemma exMarshal_fails:
  "marshalMessage exEnvMarshalFails to msg = Inl (Wrapf ''failed to marshal message'' (External (ExtErr ''marshal'')))"
  by (simp add: marshalMessage_def exEnvMarshalFails_def)

theorem marshal_failure_after_group_query_counterexample:
  "fst (sendGroup exEnvMarshalFails (exClient [] []) grp ''id1'' (WaMessage 0))
     = Some (Wrapf ''failed to marshal message'' (External (ExtErr ''marshal''))) \<and>
   filter isNetwork (newEvents (exClient [] []) (snd (sendGroup exEnvMarshalFails (exClient [] []) grp ''id1'' (WaMessage 0))))
     = [EvSendIQ (groupInfoQuery grp)]"
proof -
  from exGroupInfo_ok obtain info where "fst (GetGroupInfo exEnvMarshalFails (exClient [] []) grp) = Inr info"
    by blast
  from sendGroup_marshal_fails [OF exMarshal_fails this] show ?thesis
    by simp
qed

theorem marshal_failure_aborts_before_encryption_witness:
  "marshalMessage exEnv bob (WaMessage 0) = Inr ([1], Some [3]) \<and> Some [3] \<noteq> (None :: bytes option) \<and>
   Server bob \<noteq> GroupServer \<and>
   marshalMessage exEnv grp (WaMessage 0) = Inr ([1], None) \<and> Server grp = GroupServer \<and>
   marshalMessage exEnvMarshalFails bob (WaMessage 0)
     = Inl (Wrapf ''failed to marshal message'' (External (ExtErr ''marshal''))) \<and>
   sendDM exEnvMarshalFails (exClient [] []) bob ''id1'' (WaMessage 0)
     = (Some (Wrapf ''failed to marshal message'' (External (ExtErr ''marshal''))), exClient [] []) \<and>
   (\<exists>info. fst (GetGroupInfo exEnvMarshalFails (exClient [] []) grp) = Inr info) \<and>
   fst (sendGroup exEnvMarshalFails (exClient [] []) grp ''id1'' (WaMessage 0))
     = Some (Wrapf ''failed to marshal message'' (External (ExtErr ''marshal''))) \<and>
   newEvents (exClient [] []) (snd (sendGroup exEnvMarshalFails (exClient [] []) grp ''id1'' (WaMessage 0)))
     = [EvSendIQ (groupInfoQuery grp)]"
proof -
  let ?e = "Wrapf ''failed to marshal message'' (External (ExtErr ''marshal''))"
  have m1: "marshalMessage exEnv bob (WaMessage 0) = Inr ([1], Some [3])"
    by (simp add: marshalMessage_def ex_defs)
  have m2: "marshalMessage exEnv grp (WaMessage 0) = Inr ([1], None)"
    by (simp add: marshalMessage_def ex_defs)
  from exGroupInfo_ok obtain info where g: "fst (GetGroupInfo exEnvMarshalFails (exClient [] []) grp) = Inr info"
    by blast
  from marshal_failure_aborts_before_encryption [of exEnv bob "WaMessage 0" "[1]" "Some [3]"] m1
  have a: "Some [3] \<noteq> (None :: bytes option) \<and> Server bob \<noteq> GroupServer"
    by simp
  from marshal_failure_aborts_before_encryption [of exEnv grp "WaMessage 0" "[1]" None] m2
  have b: "Server grp = GroupServer"
    by simp
  from marshal_failure_aborts_before_encryption
    [where env = exEnvMarshalFails and to = bob and msg = "WaMessage 0" and e = ?e and cli = "exClient [] []"
       and mid = "''id1''"]
    exMarshal_fails [of bob "WaMessage 0"]
  have c: "sendDM exEnvMarshalFails (exClient [] []) bob ''id1'' (WaMessage 0) = (Some ?e, exClient [] [])"
    by simp
  from marshal_failure_aborts_before_encryption
    [where env = exEnvMarshalFails and to = grp and msg = "WaMessage 0" and e = ?e and cli = "exClient [] []"
       and mid = "''id1''" and info = info]
    exMarshal_fails [of grp "WaMessage 0"] g
  have d: "fst (sendGroup exEnvMarshalFails (exClient [] []) grp ''id1'' (WaMessage 0)) = Some ?e \<and>
     newEvents (exClient [] []) (snd (sendGroup exEnvMarshalFails (exClient [] []) grp ''id1'' (WaMessage 0)))
       = [EvSendIQ (groupInfoQuery grp)]"
    by simp
  from m1 m2 a b c d g exMarshal_fails [of bob "WaMessage 0"] show ?thesis
    by blast
qed

section \<open>Which envelopes are marked as prekey messages\<close>

lemma encryptMessageForDevice_success:
  assumes ok: "encryptMessageForDevice env cli pt to b = (Inr (n, isPre), cli')"
  shows "\<exists>cliA padded w2 ct w3.
     padMessage env (world cliA) pt = (padded, w2) \<and>
     Encrypt env w2 (SignalAddress env to) padded = (Inr ct, w3) \<and>
     n = Node ''to'' [''jid'' \<mapsto> AJID to]
           (Children [Node ''enc''
              [''v'' \<mapsto> AString ''2'',
               ''type'' \<mapsto> AString (if Type ct = PREKEY_TYPE then ''pkmsg'' else ''msg'')]
              (Bytes (Serialize ct))]) \<and>
     isPre = (Type ct = PREKEY_TYPE) \<and>
     cli' = emit (EvEncrypt to padded) w3 cliA \<and>
     (cliA = cli \<and> ContainsSession env (world cli) (SignalAddress env to) \<or>
      (\<exists>bdl w1. b = Some bdl \<and> \<not> ContainsSession env (world cli) (SignalAddress env to) \<and>
         ProcessBundle env (world cli) (SignalAddress env to) bdl = (None, w1) \<and>
         cliA = emit (EvProcessBundle to bdl) w1 cli))"
proof (cases "ContainsSession env (world cli) (SignalAddress env to)")
  case True
  obtain padded w2 where pad: "padMessage env (world cli) pt = (padded, w2)"
    by (cases "padMessage env (world cli) pt")
  obtain r w3 where enc: "Encrypt env w2 (SignalAddress env to) padded = (r, w3)"
    by (cases "Encrypt env w2 (SignalAddress env to) padded")
  from ok True pad enc obtain ct where r: "r = Inr ct"
    by (cases r) (auto simp: encryptMessageForDevice_def Let_def)
  from ok True pad enc r have
    "n = Node ''to'' [''jid'' \<mapsto> AJID to]
           (Children [Node ''enc''
              [''v'' \<mapsto> AString ''2'',
               ''type'' \<mapsto> AString (if Type ct = PREKEY_TYPE then ''pkmsg'' else ''msg'')]
              (Bytes (Serialize ct))])"
    "isPre = (Type ct = PREKEY_TYPE)" "cli' = emit (EvEncrypt to padded) w3 cli"
    by (auto simp: encryptMessageForDevice_def Let_def split: if_splits)
  with pad enc r True show ?thesis by blast
next
  case False
  with ok obtain bdl where b: "b = Some bdl"
    by (cases b) (auto simp: encryptMessageForDevice_def Let_def)
  obtain r1 w1 where pb: "ProcessBundle env (world cli) (SignalAddress env to) bdl = (r1, w1)"
    by (cases "ProcessBundle env (world cli) (SignalAddress env to) bdl")
  with ok False b have r1: "r1 = None"
    by (cases r1) (auto simp: encryptMessageForDevice_def Let_def)
  let ?cliA = "emit (EvProcessBundle to bdl) w1 cli"
  obtain padded w2 where pad: "padMessage env w1 pt = (padded, w2)"
    by (cases "padMessage env w1 pt")
  obtain r w3 where enc: "Encrypt env w2 (SignalAddress env to) padded = (r, w3)"
    by (cases "Encrypt env w2 (SignalAddress env to) padded")
  from ok False b pb r1 pad enc obtain ct where r: "r = Inr ct"
    by (cases r) (auto simp: encryptMessageForDevice_def Let_def)
  from ok False b pb r1 pad enc r have
    "n = Node ''to'' [''jid'' \<mapsto> AJID to]
           (Children [Node ''enc''
              [''v'' \<mapsto> AString ''2'',
               ''type'' \<mapsto> AString (if Type ct = PREKEY_TYPE then ''pkmsg'' else ''msg'')]
              (Bytes (Serialize ct))])"
    "isPre = (Type ct = PREKEY_TYPE)" "cli' = emit (EvEncrypt to padded) w3 ?cliA"
    by (auto simp: encryptMessageForDevice_def Let_def split: if_splits)
  moreover from pad have "padMessage env (world ?cliA) pt = (padded, w2)"
    by simp
  ultimately show ?thesis using enc r False b pb r1 by blast
qed

lemma isPkmsg_envelope:
  "isPkmsg (Node ''to'' [''jid'' \<mapsto> AJID to]
           (Children [Node ''enc''
              [''v'' \<mapsto> AString ''2'',
               ''type'' \<mapsto> AString (if Type ct = PREKEY_TYPE then ''pkmsg'' else ''msg'')]
              (Bytes (Serialize ct))])) \<longleftrightarrow> Type ct = PREKEY_TYPE"
  by (simp add: isPkmsg_def encTypes_def GetChildren_def)

lemma encryptMessageForDevice_flag:
  assumes "encryptMessageForDevice env cli pt to b = (Inr (n, isPre), cli')"
  shows "(isPre \<longleftrightarrow> isPkmsg n) \<and>
     (\<exists>w padded ct w'. Encrypt env w (SignalAddress env to) padded = (Inr ct, w') \<and>
        map Content (GetChildren n) = [Bytes (Serialize ct)] \<and>
        (isPkmsg n \<longleftrightarrow> Type ct = PREKEY_TYPE))"
proof -
  from encryptMessageForDevice_success [OF assms]
  obtain w2 padded ct w3 where e: "Encrypt env w2 (SignalAddress env to) padded = (Inr ct, w3)"
    and n: "n = Node ''to'' [''jid'' \<mapsto> AJID to]
           (Children [Node ''enc''
              [''v'' \<mapsto> AString ''2'',
               ''type'' \<mapsto> AString (if Type ct = PREKEY_TYPE then ''pkmsg'' else ''msg'')]
              (Bytes (Serialize ct))])"
    and p: "isPre = (Type ct = PREKEY_TYPE)"
    by blast
  from n have k: "isPkmsg n \<longleftrightarrow> Type ct = PREKEY_TYPE"
    by (simp only: isPkmsg_envelope)
  from n have c: "map Content (GetChildren n) = [Bytes (Serialize ct)]"
    by (simp add: GetChildren_def)
  from p k have "isPre \<longleftrightarrow> isPkmsg n" by simp
  moreover have "\<exists>w padded ct w'. Encrypt env w (SignalAddress env to) padded = (Inr ct, w') \<and>
        map Content (GetChildren n) = [Bytes (Serialize ct)] \<and>
        (isPkmsg n \<longleftrightarrow> Type ct = PREKEY_TYPE)"
    by (rule exI [of _ w2], rule exI [of _ padded], rule exI [of _ ct], rule exI [of _ w3])
       (simp add: e c k)
  ultimately show ?thesis by simp
qed

lemma firstPass_flag:
  "firstPass env m d js (cli, ns, inc, rs) = (cli', ns', inc', rs') \<Longrightarrow>
   \<exists>add. ns' = ns @ add \<and> (inc' \<longleftrightarrow> inc \<or> (\<exists>n \<in> set add. isPkmsg n))"
proof (induction js arbitrary: cli ns inc rs)
  case Nil
  then show ?case by simp
next
  case (Cons j js)
  obtain r cli1 where step: "encryptMessageForDevice env cli (choosePlaintext cli j m d) j None = (r, cli1)"
    by (cases "encryptMessageForDevice env cli (choosePlaintext cli j m d) j None")
  show ?case
  proof (cases r)
    case (Inl e)
    with step Cons.prems obtain rs1 where "firstPass env m d js (cli1, ns, inc, rs1) = (cli', ns', inc', rs')"
      by (auto split: if_splits)
    from Cons.IH [OF this] show ?thesis .
  next
    case (Inr p)
    obtain n isPre where p: "p = (n, isPre)" by (cases p)
    from encryptMessageForDevice_flag [OF step [unfolded Inr p]] have flag: "isPre \<longleftrightarrow> isPkmsg n"
      by simp
    from step Inr p Cons.prems
    have "firstPass env m d js (cli1, ns @ [n], (if isPre then True else inc), rs) = (cli', ns', inc', rs')"
      by simp
    from Cons.IH [OF this] obtain add where
      "ns' = (ns @ [n]) @ add" "inc' \<longleftrightarrow> (if isPre then True else inc) \<or> (\<exists>n \<in> set add. isPkmsg n)"
      by blast
    with flag have "ns' = ns @ (n # add) \<and> (inc' \<longleftrightarrow> inc \<or> (\<exists>k \<in> set (n # add). isPkmsg k))"
      by auto
    then show ?thesis by blast
  qed
qed

lemma retryPass_flag:
  "retryPass env m d bundles js (cli, ns, inc) = (cli', ns', inc') \<Longrightarrow>
   \<exists>add. ns' = ns @ add \<and> (inc' \<longleftrightarrow> inc \<or> (\<exists>n \<in> set add. isPkmsg n))"
proof (induction js arbitrary: cli ns inc)
  case Nil
  then show ?case by simp
next
  case (Cons j js)
  show ?case
  proof (cases "err (lookupResp bundles j)")
    case (Some e)
    with Cons.prems have "retryPass env m d bundles js (cli, ns, inc) = (cli', ns', inc')"
      by (simp add: Let_def)
    from Cons.IH [OF this] show ?thesis .
  next
    case None
    obtain r cli1 where step:
      "encryptMessageForDevice env cli (choosePlaintext cli j m d) j (bundle (lookupResp bundles j)) = (r, cli1)"
      by (cases "encryptMessageForDevice env cli (choosePlaintext cli j m d) j (bundle (lookupResp bundles j))")
    show ?thesis
    proof (cases r)
      case (Inl e)
      with step None Cons.prems have "retryPass env m d bundles js (cli1, ns, inc) = (cli', ns', inc')"
        by (simp add: Let_def)
      from Cons.IH [OF this] show ?thesis .
    next
      case (Inr p)
      obtain n isPre where p: "p = (n, isPre)" by (cases p)
      from encryptMessageForDevice_flag [OF step [unfolded Inr p]] have flag: "isPre \<longleftrightarrow> isPkmsg n"
        by simp
      from step Inr p None Cons.prems
      have "retryPass env m d bundles js (cli1, ns @ [n], (if isPre then True else inc)) = (cli', ns', inc')"
        by (simp add: Let_def)
      from Cons.IH [OF this] obtain add where
        "ns' = (ns @ [n]) @ add" "inc' \<longleftrightarrow> (if isPre then True else inc) \<or> (\<exists>n \<in> set add. isPkmsg n)"
        by blast
      with flag have "ns' = ns @ (n # add) \<and> (inc' \<longleftrightarrow> inc \<or> (\<exists>k \<in> set (n # add). isPkmsg k))"
        by auto
      then show ?thesis by blast
    qed
  qed
qed

lemma fanout_flag:
  "snd (fst (encryptMessageForDevices env cli devs mid m d)) \<longleftrightarrow>
   (\<exists>n \<in> set (fst (fst (encryptMessageForDevices env cli devs mid m d))). isPkmsg n)"
proof -
  obtain cli1 ns inc rs where fp: "firstPass env m d devs (cli, [], False, []) = (cli1, ns, inc, rs)"
    by (cases "firstPass env m d devs (cli, [], False, [])") auto
  from firstPass_flag [OF fp] have i1: "inc \<longleftrightarrow> (\<exists>n \<in> set ns. isPkmsg n)"
    by auto
  obtain r w where f: "fetchPreKeys env (world cli1) rs = (r, w)"
    by (cases "fetchPreKeys env (world cli1) rs")
  show ?thesis
  proof (cases "rs \<noteq> [] \<and> (\<exists>bundles. r = Inr bundles)")
    case False
    with fp f have "fst (encryptMessageForDevices env cli devs mid m d) = (ns, inc)"
      by (cases r) (auto simp: encryptMessageForDevices_def)
    with i1 show ?thesis by simp
  next
    case True
    then obtain bundles where r: "r = Inr bundles" and ne: "rs \<noteq> []" by blast
    obtain cli2 ns2 inc2 where rp:
      "retryPass env m d bundles rs (emit (EvFetchPreKeys rs) w cli1, ns, inc) = (cli2, ns2, inc2)"
      by (cases "retryPass env m d bundles rs (emit (EvFetchPreKeys rs) w cli1, ns, inc)") auto
    from retryPass_flag [OF rp] i1 have "inc2 \<longleftrightarrow> (\<exists>n \<in> set ns2. isPkmsg n)"
      by auto
    moreover from fp f r ne rp have "fst (encryptMessageForDevices env cli devs mid m d) = (ns2, inc2)"
      by (simp add: encryptMessageForDevices_def)
    ultimately show ?thesis by simp
  qed
qed

lemma bundle_then_prekey:
  assumes "bundleGivesPrekey env" "\<not> ContainsSession env (world cli) (SignalAddress env to)"
    "encryptMessageForDevice env cli pt to (Some bdl) = (Inr (n, isPre), cli')"
  shows "isPkmsg n \<and> EvProcessBundle to bdl \<in> set (newEvents cli cli')"
proof -
  from encryptMessageForDevice_success [OF assms(3)] assms(2)
  obtain padded w1 w2 ct w3 where
    pb: "ProcessBundle env (world cli) (SignalAddress env to) bdl = (None, w1)"
    and pad: "padMessage env w1 pt = (padded, w2)"
    and enc: "Encrypt env w2 (SignalAddress env to) padded = (Inr ct, w3)"
    and n: "n = Node ''to'' [''jid'' \<mapsto> AJID to]
           (Children [Node ''enc''
              [''v'' \<mapsto> AString ''2'',
               ''type'' \<mapsto> AString (if Type ct = PREKEY_TYPE then ''pkmsg'' else ''msg'')]
              (Bytes (Serialize ct))])"
    and c: "cli' = emit (EvEncrypt to padded) w3 (emit (EvProcessBundle to bdl) w1 cli)"
    by auto
  from pad enc have "Encrypt env (snd (padMessage env w1 pt)) (SignalAddress env to)
      (fst (padMessage env w1 pt)) = (Inr ct, w3)"
    by simp
  with assms(1) pb have t: "Type ct = PREKEY_TYPE"
    unfolding bundleGivesPrekey_def by blast
  from n have "isPkmsg n \<longleftrightarrow> Type ct = PREKEY_TYPE"
    by (simp only: isPkmsg_envelope)
  with t have "isPkmsg n" by simp
  with c show ?thesis by (simp add: newEvents_def)
qed

text \<open>
  Claim C6, as the code has it. An envelope is marked (\<^verbatim>\<open>pkmsg\<close>, and the flag returned
  with it set) exactly when the cipher returned a prekey ciphertext for it, and the
  fanout's flag is set exactly when one of the envelopes it returns is marked. An
  envelope encrypted after its session was set up from a bundle in this call is marked,
  given that the Signal library answers the first encryption of such a session with a
  prekey message. The converse is not claimed: a device whose session exists may get a
  marked envelope too.
\<close>

theorem envelope_marked_iff_prekey_ciphertext:
  "(encryptMessageForDevice env cli pt to b = (Inr (n, isPre), cli') \<longrightarrow>
      (isPre \<longleftrightarrow> isPkmsg n) \<and>
      (\<exists>w padded ct w'. Encrypt env w (SignalAddress env to) padded = (Inr ct, w') \<and>
         map Content (GetChildren n) = [Bytes (Serialize ct)] \<and>
         (isPkmsg n \<longleftrightarrow> Type ct = PREKEY_TYPE))) \<and>
   (snd (fst (encryptMessageForDevices env cli devs mid m d)) \<longleftrightarrow>
      (\<exists>k \<in> set (fst (fst (encryptMessageForDevices env cli devs mid m d))). isPkmsg k)) \<and>
   (bundleGivesPrekey env \<and> \<not> ContainsSession env (world cli) (SignalAddress env to) \<and>
    encryptMessageForDevice env cli pt to (Some bdl) = (Inr (n, isPre), cli') \<longrightarrow>
      isPkmsg n \<and> EvProcessBundle to bdl \<in> set (newEvents cli cli'))"
  using encryptMessageForDevice_flag [of env cli pt to b n isPre cli']
    fanout_flag [of env cli devs mid m d] bundle_then_prekey [of env cli to pt bdl n isPre cli']
  by blast


lemma bundleGivesPrekey_exEnv: "bundleGivesPrekey exEnv"
  by (auto simp: bundleGivesPrekey_def exEnv_def)

lemma exEncrypt_first_contact:
  "encryptMessageForDevice exEnv (exClient [] []) [1] bob0 (Some (Bundle 0)) =
     (Inr (exEnvelope bob0 ''pkmsg'' [1, 1], True),
      \<lparr>SessionID = alice0,
       world = \<lparr>sessions = [SignalAddress exEnv bob0], pending = [SignalAddress exEnv bob0]\<rparr>,
       trace = [EvProcessBundle bob0 (Bundle 0), EvEncrypt bob0 [1, 1]]\<rparr>)"
  by (simp add: run_defs ex_defs exVariant_defs emit_def)

lemma exFanout_pending_session:
  "encryptMessageForDevices exEnv
      (exClient [SignalAddress exEnv bob0] [SignalAddress exEnv bob0]) [bob0] ''id1'' [1] None =
     (([exEnvelope bob0 ''pkmsg'' [1, 1]], True),
      \<lparr>SessionID = alice0,
       world = \<lparr>sessions = [SignalAddress exEnv bob0], pending = [SignalAddress exEnv bob0]\<rparr>,
       trace = [EvEncrypt bob0 [1, 1]]\<rparr>)"
  by (simp add: run_defs ex_defs exVariant_defs emit_def)

lemma isPkmsg_exEnvelope [simp]: "isPkmsg (exEnvelope to t ct) \<longleftrightarrow> t = ''pkmsg''"
  by (simp add: isPkmsg_def encTypes_def GetChildren_def exEnvelope_def)

theorem pkmsg_without_bundle_counterexample:
  "ContainsSession exEnv (world (exClient [SignalAddress exEnv bob0] [SignalAddress exEnv bob0]))
     (SignalAddress exEnv bob0) \<and>
   map isPkmsg (fst (fst (encryptMessageForDevices exEnv
      (exClient [SignalAddress exEnv bob0] [SignalAddress exEnv bob0]) [bob0] ''id1'' [1] None))) = [True] \<and>
   snd (fst (encryptMessageForDevices exEnv
      (exClient [SignalAddress exEnv bob0] [SignalAddress exEnv bob0]) [bob0] ''id1'' [1] None)) \<and>
   newEvents (exClient [SignalAddress exEnv bob0] [SignalAddress exEnv bob0])
     (snd (encryptMessageForDevices exEnv
        (exClient [SignalAddress exEnv bob0] [SignalAddress exEnv bob0]) [bob0] ''id1'' [1] None))
     = [EvEncrypt bob0 [1, 1]] \<and>
   bundleCount bob0 [EvEncrypt bob0 [1, 1]] = 0 \<and> fetchCount [EvEncrypt bob0 [1, 1]] = 0"
  by (simp add: exFanout_pending_session) (simp add: exClient_def exEnv_def newEvents_def)

theorem envelope_marked_iff_prekey_ciphertext_witness:
  "(\<exists>c. encryptMessageForDevice exEnv (exClient [] []) [1] bob0 (Some (Bundle 0))
          = (Inr (exEnvelope bob0 ''pkmsg'' [1, 1], True), c) \<and>
        EvProcessBundle bob0 (Bundle 0) \<in> set (newEvents (exClient [] []) c)) \<and>
   isPkmsg (exEnvelope bob0 ''pkmsg'' [1, 1]) \<and>
   bundleGivesPrekey exEnv \<and>
   \<not> ContainsSession exEnv (world (exClient [] [])) (SignalAddress exEnv bob0) \<and>
   snd (fst (encryptMessageForDevices exEnv
      (exClient [SignalAddress exEnv bob0] [SignalAddress exEnv bob0]) [bob0] ''id1'' [1] None)) \<and>
   (\<exists>k \<in> set (fst (fst (encryptMessageForDevices exEnv
      (exClient [SignalAddress exEnv bob0] [SignalAddress exEnv bob0]) [bob0] ''id1'' [1] None))). isPkmsg k)"
proof -
  let ?c = "\<lparr>SessionID = alice0,
       world = \<lparr>sessions = [SignalAddress exEnv bob0], pending = [SignalAddress exEnv bob0]\<rparr>,
       trace = [EvProcessBundle bob0 (Bundle 0), EvEncrypt bob0 [1, 1]]\<rparr>"
  have n: "\<not> ContainsSession exEnv (world (exClient [] [])) (SignalAddress exEnv bob0)"
    by (simp add: exEnv_def exClient_def)
  note t = envelope_marked_iff_prekey_ciphertext
    [where env = exEnv and cli = "exClient [] []" and pt = "[1]" and to = bob0 and b = "Some (Bundle 0)"
       and bdl = "Bundle 0" and n = "exEnvelope bob0 ''pkmsg'' [1, 1]" and isPre = True and cli' = ?c]
  from t exEncrypt_first_contact n bundleGivesPrekey_exEnv
  have a: "isPkmsg (exEnvelope bob0 ''pkmsg'' [1, 1]) \<and>
      EvProcessBundle bob0 (Bundle 0) \<in> set (newEvents (exClient [] []) ?c)"
    by blast
  have s: "snd (fst (encryptMessageForDevices exEnv
      (exClient [SignalAddress exEnv bob0] [SignalAddress exEnv bob0]) [bob0] ''id1'' [1] None))"
    by (simp add: exFanout_pending_session)
  with envelope_marked_iff_prekey_ciphertext
    [where env = exEnv and cli = "exClient [SignalAddress exEnv bob0] [SignalAddress exEnv bob0]"
       and devs = "[bob0]" and mid = "''id1''" and m = "[1]" and d = None]
  have b: "\<exists>k \<in> set (fst (fst (encryptMessageForDevices exEnv
      (exClient [SignalAddress exEnv bob0] [SignalAddress exEnv bob0]) [bob0] ''id1'' [1] None))). isPkmsg k"
    by blast
  from a exEncrypt_first_contact have "\<exists>c. encryptMessageForDevice exEnv (exClient [] []) [1] bob0 (Some (Bundle 0))
          = (Inr (exEnvelope bob0 ''pkmsg'' [1, 1], True), c) \<and>
        EvProcessBundle bob0 (Bundle 0) \<in> set (newEvents (exClient [] []) c)"
    by blast
  with a n bundleGivesPrekey_exEnv s b show ?thesis by blast
qed

section \<open>Which failures end the send\<close>
































end
